theory Spec2Isabelle
  imports Main "HOL-Library.Word"
begin

unbundle bit_operations_syntax

section \<open>Compression levels\<close>

text \<open>
  Go's \<open>int\<close> holds every level the normaliser computes with (the only arithmetic is
  \<open>level + 2\<close> on a level in \<open>-2..9\<close>), so levels are modelled as \<open>int\<close>.

  \<open>CompressDefaultCompression\<close> is the constant of \<open>compress.go\<close>;
  \<open>DefaultCompression\<close>, \<open>BestCompression\<close>, \<open>BestSpeed\<close> and \<open>NoCompression\<close>
  are the constants the package \<open>deflate\<close> re-exports from \<open>compress/flate\<close>
  (values \<open>-1\<close>, \<open>9\<close>, \<open>1\<close>, \<open>0\<close>); \<open>zlib_HuffmanOnly\<close> and
  \<open>zlib_BestCompression\<close> are \<open>zlib.HuffmanOnly\<close> and \<open>zlib.BestCompression\<close>.
\<close>

definition CompressDefaultCompression :: int where
  "CompressDefaultCompression = 6"

definition DefaultCompression :: int where
  "DefaultCompression = -1"

definition BestCompression :: int where
  "BestCompression = 9"

definition BestSpeed :: int where
  "BestSpeed = 1"

definition NoCompression :: int where
  "NoCompression = 0"

definition zlib_HuffmanOnly :: int where
  "zlib_HuffmanOnly = -2"

definition zlib_BestCompression :: int where
  "zlib_BestCompression = 9"

text \<open>
  \<^verbatim>\<open>
  func normalizeCompressLevel(level int) int {
      if level < -2 || level > 9 {
          level = CompressDefaultCompression
      }
      return level + 2
  }
  \<close>
\<close>

definition normalizeCompressLevel :: "int \<Rightarrow> int" where
  "normalizeCompressLevel level =
     (let level = (if level < -2 \<or> level > 9 then CompressDefaultCompression else level)
      in level + 2)"

section \<open>Bytes, errors and destinations\<close>

type_synonym byte = "8 word"
type_synonym bytes = "byte list"

text \<open>
  Go errors are values. \<open>ErrInvalidLevel\<close> is the error of \<open>zlib.NewWriterLevel\<close>,
  \<open>ErrTooMuchData\<close> the one \<open>WriteInflate\<close> builds with \<open>fmt.Errorf\<close>, \<open>ErrWriter\<close> an
  error of a caller-supplied \<open>io.Writer\<close>; the others are the errors of \<open>io\<close>,
  \<open>compress/zlib\<close> and \<open>compress/flate\<close>.
\<close>

datatype error =
    ErrInvalidLevel int
  | ErrUnexpectedEOF
  | ErrHeader
  | ErrDictionary
  | ErrChecksum
  | ErrCorrupt
  | ErrShortWrite
  | ErrTooMuchData int
  | ErrWriter nat

text \<open>
  An \<open>io.Writer\<close> is one of the three in-memory types \<open>WriteDeflateLevel\<close> switches
  on, each holding the bytes written so far, or any other writer: a state and its
  \<open>Write\<close> method, which returns the new state, the count and the error.
  \<^verbatim>\<open>
  func (w *byteSliceWriter) Write(p []byte) (int, error) {
      w.b = append(w.b, p...)
      return len(p), nil
  }
  \<close>
  \<open>bytes.Buffer\<close> and \<open>bytebufferpool.ByteBuffer\<close> append likewise and return a nil error.
\<close>

datatype 's writer =
    ByteSliceWriter (bsw_b: bytes)
  | BytesBuffer bytes
  | ByteBuffer (bb_B: bytes)
  | OtherWriter "'s \<Rightarrow> bytes \<Rightarrow> 's \<times> int \<times> error option" 's

fun io_Write :: "'s writer \<Rightarrow> bytes \<Rightarrow> 's writer \<times> int \<times> error option" where
  "io_Write (ByteSliceWriter b) p = (ByteSliceWriter (b @ p), int (length p), None)"
| "io_Write (BytesBuffer b) p = (BytesBuffer (b @ p), int (length p), None)"
| "io_Write (ByteBuffer b) p = (ByteBuffer (b @ p), int (length p), None)"
| "io_Write (OtherWriter f s) p =
     (case f s p of (s', n, err) \<Rightarrow> (OtherWriter f s', n, err))"

text \<open>
  A codec writes a sequence of chunks to its destination, one \<open>Write\<close> call each, and
  stops at the first error (\<open>compress/zlib\<close> and \<open>compress/flate\<close> keep the first error
  and write nothing after it).
\<close>

fun write_all :: "'s writer \<Rightarrow> bytes list \<Rightarrow> 's writer \<times> error option" where
  "write_all w [] = (w, None)"
| "write_all w (c # cs) =
     (case io_Write w c of
        (w', n, Some err) \<Rightarrow> (w', Some err)
      | (w', n, None) \<Rightarrow> write_all w' cs)"

text \<open>
  The source of a decompression is a \<open>byteSliceReader\<close> over the payload.
  \<^verbatim>\<open>
  func (r *byteSliceReader) Read(p []byte) (int, error) {
      if len(r.b) == 0 {
          return 0, io.EOF
      }
      n := copy(p, r.b)
      r.b = r.b[n:]
      return n, nil
  }
  \<close>
  \<open>byteSliceReader_Read b m\<close> is a call with a buffer of length \<open>m\<close>: the field \<open>b\<close>
  afterwards, the bytes copied into the buffer and whether the error is \<open>io.EOF\<close>.
  \<open>byteSliceReader_drain\<close> reads with such buffers until \<open>io.EOF\<close>.
\<close>

definition byteSliceReader_Read :: "bytes \<Rightarrow> nat \<Rightarrow> bytes \<times> bytes \<times> bool" where
  "byteSliceReader_Read b m =
     (if length b = 0 then (b, [], True)
      else (let n = min m (length b) in (drop n b, take n b, False)))"

function byteSliceReader_drain :: "nat \<Rightarrow> bytes \<Rightarrow> bytes" where
  "byteSliceReader_drain m b =
     (if m = 0 then []
      else (case byteSliceReader_Read b m of
              (b', got, True) \<Rightarrow> got
            | (b', got, False) \<Rightarrow> got @ byteSliceReader_drain m b'))"
  by pat_completeness auto
termination
  by (relation "measure (\<lambda>(m, b). length b)")
     (auto simp add: byteSliceReader_Read_def Let_def split: if_splits)

section \<open>The codec dependency\<close>

text \<open>
  The DEFLATE codec is Go's \<open>compress/zlib\<close>, a dependency of the repository. The model
  takes it as a parameter: \<open>'c\<close> is the state of a compressor,
  \<^item> \<open>z_init level\<close> is the state of a writer made or reset at a valid level;
  \<^item> \<open>z_write c p\<close> is the state after \<open>Write(p)\<close> and the chunks it wrote to the destination;
  \<^item> \<open>z_close c\<close> is the state after \<open>Close()\<close> and the chunks it wrote;
  \<^item> \<open>z_reader src\<close> is what a reader made or reset on the source bytes \<open>src\<close> does:
    \<open>Inl err\<close> when \<open>zlib.NewReader\<close> or \<open>Reset\<close> fails, otherwise the chunks its \<open>Read\<close>
    calls deliver and the error that ends them (\<open>None\<close> for \<open>io.EOF\<close>);
  \<^item> \<open>int_bits\<close> is the width of Go's \<open>int\<close> on the platform (32 or 64).
\<close>

record 'c deps =
  z_init :: "int \<Rightarrow> 'c"
  z_write :: "'c \<Rightarrow> bytes \<Rightarrow> 'c \<times> bytes list"
  z_close :: "'c \<Rightarrow> 'c \<times> bytes list"
  z_reader :: "bytes \<Rightarrow> error + bytes list \<times> error option"
  int_bits :: nat

text \<open>
  A \<open>*zlib.Writer\<close>: its level, its compressor and the first error it met. Its
  destination is the writer passed to each operation (the field \<open>w\<close> set by
  \<open>NewWriterLevel\<close> and \<open>Reset\<close>).
\<close>

record 'c zlib_Writer =
  zw_level :: int
  zw_comp :: 'c
  zw_err :: "error option"

text \<open>
  \<open>zlib.NewWriterLevel\<close> fails exactly for a level outside \<open>HuffmanOnly..BestCompression\<close>
  and then returns a nil writer.
\<close>

definition zlib_NewWriterLevel :: "'c deps \<Rightarrow> int \<Rightarrow> 'c zlib_Writer option \<times> error option" where
  "zlib_NewWriterLevel d level =
     (if level < zlib_HuffmanOnly \<or> level > zlib_BestCompression
      then (None, Some (ErrInvalidLevel level))
      else (Some \<lparr>zw_level = level, zw_comp = z_init d level, zw_err = None\<rparr>, None))"

definition zlib_Reset :: "'c deps \<Rightarrow> 'c zlib_Writer \<Rightarrow> 'c zlib_Writer" where
  "zlib_Reset d zw = zw\<lparr>zw_comp := z_init d (zw_level zw), zw_err := None\<rparr>"

definition zlib_Write ::
  "'c deps \<Rightarrow> 'c zlib_Writer \<Rightarrow> 's writer \<Rightarrow> bytes \<Rightarrow> 'c zlib_Writer \<times> 's writer \<times> int \<times> error option" where
  "zlib_Write d zw w p =
     (case zw_err zw of
        Some err \<Rightarrow> (zw, w, 0, Some err)
      | None \<Rightarrow>
          (case z_write d (zw_comp zw) p of (c, chunks) \<Rightarrow>
           (case write_all w chunks of (w', err) \<Rightarrow>
              (zw\<lparr>zw_comp := c, zw_err := err\<rparr>, w',
               (if err = None then int (length p) else 0), err))))"

definition zlib_Close ::
  "'c deps \<Rightarrow> 'c zlib_Writer \<Rightarrow> 's writer \<Rightarrow> 'c zlib_Writer \<times> 's writer \<times> error option" where
  "zlib_Close d zw w =
     (case zw_err zw of
        Some err \<Rightarrow> (zw, w, Some err)
      | None \<Rightarrow>
          (case z_close d (zw_comp zw) of (c, chunks) \<Rightarrow>
           (case write_all w chunks of (w', err) \<Rightarrow>
              (zw\<lparr>zw_comp := c, zw_err := err\<rparr>, w', err))))"

text \<open>
  A zlib reader bound to a source: the chunks it still has to deliver and the error that
  ends them.
\<close>

record zlib_Reader =
  zr_chunks :: "bytes list"
  zr_err :: "error option"

definition zlib_NewReader :: "'c deps \<Rightarrow> bytes \<Rightarrow> error + zlib_Reader" where
  "zlib_NewReader d src =
     (case z_reader d src of
        Inl err \<Rightarrow> Inl err
      | Inr (chunks, err) \<Rightarrow> Inr \<lparr>zr_chunks = chunks, zr_err = err\<rparr>)"

section \<open>The stackless writer\<close>

text \<open>
  Modelled from the spec: \<open>stackless.Writer\<close> and \<open>stackless.NewFunc\<close> are hertz's, a
  dependency whose code is not among the sources. The spec (4.3, 5) has every submitted
  job run to completion on a worker while the caller waits, with the same results, so
  the hand-over to a worker is a plain call here. A stackless writer wraps the writer
  \<open>newWriter(&w.xw)\<close> made on its own buffer \<open>xw\<close> (a \<open>ByteBuffer\<close>); every
  operation runs the wrapped writer's operation and then, when that reported no error
  and \<open>xw\<close> is not empty, forwards \<open>xw\<close> to the destination in one \<open>Write\<close> call,
  whose error it returns, and empties \<open>xw\<close>.
\<close>

record 'c stackless_Writer =
  sw_zw :: "'c zlib_Writer"
  sw_xw :: bytes

definition sw_flush ::
  "'c stackless_Writer \<Rightarrow> 's writer \<Rightarrow> error option \<Rightarrow> 'c stackless_Writer \<times> 's writer \<times> error option" where
  "sw_flush sw dstW err =
     (if err \<noteq> None then (sw, dstW, err)
      else if sw_xw sw \<noteq> [] then
        (case io_Write dstW (sw_xw sw) of (dstW', n, err') \<Rightarrow> (sw\<lparr>sw_xw := []\<rparr>, dstW', err'))
      else (sw\<lparr>sw_xw := []\<rparr>, dstW, None))"

definition sw_Write ::
  "'c deps \<Rightarrow> 'c stackless_Writer \<Rightarrow> 's writer \<Rightarrow> bytes \<Rightarrow>
     'c stackless_Writer \<times> 's writer \<times> int \<times> error option" where
  "sw_Write d sw dstW p =
     (case zlib_Write d (sw_zw sw) (ByteBuffer (sw_xw sw)) p of (zw, xw, n, err) \<Rightarrow>
      (case sw_flush (sw\<lparr>sw_zw := zw, sw_xw := bb_B (xw :: unit writer)\<rparr>) dstW err of
         (sw', dstW', err') \<Rightarrow> (sw', dstW', n, err')))"

definition sw_Close ::
  "'c deps \<Rightarrow> 'c stackless_Writer \<Rightarrow> 's writer \<Rightarrow> 'c stackless_Writer \<times> 's writer \<times> error option" where
  "sw_Close d sw dstW =
     (case zlib_Close d (sw_zw sw) (ByteBuffer (sw_xw sw)) of (zw, xw, err) \<Rightarrow>
        sw_flush (sw\<lparr>sw_zw := zw, sw_xw := bb_B (xw :: unit writer)\<rparr>) dstW err)"

definition sw_Reset :: "'c deps \<Rightarrow> 'c stackless_Writer \<Rightarrow> 'c stackless_Writer" where
  "sw_Reset d sw = \<lparr>sw_zw = zlib_Reset d (sw_zw sw), sw_xw = []\<rparr>"

section \<open>The pools\<close>

text \<open>
  A \<open>sync.Pool\<close> is the list of its idle objects: \<open>Get\<close> takes one or returns nil,
  \<open>Put\<close> adds one. The three package variables are the state of the engine.
  \<^verbatim>\<open>
  func newCompressWriterPoolMap() []*sync.Pool {
      var m []*sync.Pool
      for i := 0; i < 12; i++ {
          m = append(m, &sync.Pool{})
      }
      return m
  }
  \<close>
\<close>

definition newCompressWriterPoolMap :: "'a list list" where
  "newCompressWriterPoolMap = map (\<lambda>i. []) [0..<12]"

record 'c pools =
  stacklessDeflateWriterPoolMap :: "'c stackless_Writer list list"
  realDeflateWriterPoolMap :: "'c zlib_Writer list list"
  flateReaderPool :: "zlib_Reader list"

definition init_pools :: "'c pools" where
  "init_pools =
     \<lparr>stacklessDeflateWriterPoolMap = newCompressWriterPoolMap,
      realDeflateWriterPoolMap = newCompressWriterPoolMap,
      flateReaderPool = []\<rparr>"

text \<open>
  Indexing a slice of pools, \<open>m[nLevel]\<close>: Go panics out of range, the model returns
  \<open>None\<close>.
\<close>

definition pool_at :: "'a list list \<Rightarrow> int \<Rightarrow> 'a list option" where
  "pool_at m i = (if 0 \<le> i \<and> nat i < length m then Some (m ! nat i) else None)"

section \<open>Codec writers from the pools\<close>

text \<open>
  \<^verbatim>\<open>
  func acquireRealDeflateWriter(w io.Writer, level int) *zlib.Writer {
      nLevel := normalizeCompressLevel(level)
      p := realDeflateWriterPoolMap[nLevel]
      v := p.Get()
      if v == nil {
          zw, err := zlib.NewWriterLevel(w, level)
          if err != nil {
              if level < zlib.HuffmanOnly {
                  level = zlib.HuffmanOnly
              } else {
                  level = zlib.BestCompression
              }
              zw, _ = zlib.NewWriterLevel(w, level)
          }
          return zw
      }
      zw := v.(*zlib.Writer)
      zw.Reset(w)
      return zw
  }
  \<close>
  The result is \<open>None\<close> when indexing the pool map panics; otherwise the new pools and
  the writer pointer, which is nil (\<open>None\<close>) only if the second \<open>NewWriterLevel\<close> failed.
\<close>

definition acquireRealDeflateWriter ::
  "'c deps \<Rightarrow> 'c pools \<Rightarrow> int \<Rightarrow> ('c pools \<times> 'c zlib_Writer option) option" where
  "acquireRealDeflateWriter d st level =
     (let nLevel = normalizeCompressLevel level in
      case pool_at (realDeflateWriterPoolMap st) nLevel of
        None \<Rightarrow> None
      | Some [] \<Rightarrow>
          (case zlib_NewWriterLevel d level of
             (zw, None) \<Rightarrow> Some (st, zw)
           | (zw, Some err) \<Rightarrow>
               (let level = (if level < zlib_HuffmanOnly then zlib_HuffmanOnly
                             else zlib_BestCompression)
                in Some (st, fst (zlib_NewWriterLevel d level))))
      | Some (v # vs) \<Rightarrow>
          Some (st\<lparr>realDeflateWriterPoolMap := (realDeflateWriterPoolMap st)[nat nLevel := vs]\<rparr>,
                Some (zlib_Reset d v)))"

text \<open>
  \<^verbatim>\<open>
  func releaseRealDeflateWriter(zw *zlib.Writer, level int) {
      zw.Close()
      nLevel := normalizeCompressLevel(level)
      p := realDeflateWriterPoolMap[nLevel]
      p.Put(zw)
  }
  \<close>
  The error of \<open>Close\<close> is dropped.
\<close>

definition releaseRealDeflateWriter ::
  "'c deps \<Rightarrow> 'c pools \<Rightarrow> 'c zlib_Writer \<Rightarrow> 's writer \<Rightarrow> int \<Rightarrow> ('c pools \<times> 's writer) option" where
  "releaseRealDeflateWriter d st zw w level =
     (case zlib_Close d zw w of (zw', w', err) \<Rightarrow>
      (let nLevel = normalizeCompressLevel level in
       case pool_at (realDeflateWriterPoolMap st) nLevel of
         None \<Rightarrow> None
       | Some p \<Rightarrow>
           Some (st\<lparr>realDeflateWriterPoolMap :=
                       (realDeflateWriterPoolMap st)[nat nLevel := zw' # p]\<rparr>, w')))"

text \<open>
  \<^verbatim>\<open>
  func nonblockingWriteDeflate(ctxv interface{}) {
      ctx := ctxv.(*compressCtx)
      zw := acquireRealDeflateWriter(ctx.w, ctx.level)
      zw.Write(ctx.p) //nolint:errcheck // no way to handle this error anyway
      releaseRealDeflateWriter(zw, ctx.level)
  }
  \<close>
  The context \<open>compressCtx{w, p, level}\<close> is the three arguments. A nil \<open>zw\<close> would
  panic at \<open>zw.Write\<close>.
\<close>

definition nonblockingWriteDeflate ::
  "'c deps \<Rightarrow> 'c pools \<Rightarrow> 's writer \<Rightarrow> bytes \<Rightarrow> int \<Rightarrow> ('c pools \<times> 's writer) option" where
  "nonblockingWriteDeflate d st w p level =
     (case acquireRealDeflateWriter d st level of
        None \<Rightarrow> None
      | Some (st1, None) \<Rightarrow> None
      | Some (st1, Some zw) \<Rightarrow>
          (case zlib_Write d zw w p of (zw', w', n, err) \<Rightarrow>
             releaseRealDeflateWriter d st1 zw' w' level))"

text \<open>
  \<^verbatim>\<open>
  func stacklessWriteDeflate(ctx interface{}) {
      stacklessWriteDeflateOnce.Do(func() {
          stacklessWriteDeflateFunc = stackless.NewFunc(nonblockingWriteDeflate)
      })
      stacklessWriteDeflateFunc(ctx)
  }
  \<close>
  Modelled from the spec: \<open>stackless.NewFunc\<close> is hertz's; the spec (4.3, 5) has the job
  run to completion on a worker while the caller waits.
\<close>

definition stacklessWriteDeflate ::
  "'c deps \<Rightarrow> 'c pools \<Rightarrow> 's writer \<Rightarrow> bytes \<Rightarrow> int \<Rightarrow> ('c pools \<times> 's writer) option" where
  "stacklessWriteDeflate d st w p level = nonblockingWriteDeflate d st w p level"

text \<open>
  \<^verbatim>\<open>
  func AcquireStacklessDeflateWriter(w io.Writer, level int) stackless.Writer {
      nLevel := normalizeCompressLevel(level)
      p := stacklessDeflateWriterPoolMap[nLevel]
      v := p.Get()
      if v == nil {
          return stackless.NewWriter(w, func(w io.Writer) stackless.Writer {
              return acquireRealDeflateWriter(w, level)
          })
      }
      sw := v.(stackless.Writer)
      sw.Reset(w)
      return sw
  }
  \<close>
  A nil \<open>*zlib.Writer\<close> inside a new stackless writer would panic at its first use; the
  model reports it here.
\<close>

definition AcquireStacklessDeflateWriter ::
  "'c deps \<Rightarrow> 'c pools \<Rightarrow> int \<Rightarrow> ('c pools \<times> 'c stackless_Writer) option" where
  "AcquireStacklessDeflateWriter d st level =
     (let nLevel = normalizeCompressLevel level in
      case pool_at (stacklessDeflateWriterPoolMap st) nLevel of
        None \<Rightarrow> None
      | Some [] \<Rightarrow>
          (case acquireRealDeflateWriter d st level of
             None \<Rightarrow> None
           | Some (st1, None) \<Rightarrow> None
           | Some (st1, Some zw) \<Rightarrow> Some (st1, \<lparr>sw_zw = zw, sw_xw = []\<rparr>))
      | Some (v # vs) \<Rightarrow>
          Some (st\<lparr>stacklessDeflateWriterPoolMap :=
                      (stacklessDeflateWriterPoolMap st)[nat nLevel := vs]\<rparr>,
                sw_Reset d v))"

text \<open>
  \<^verbatim>\<open>
  func releaseStacklessDeflateWriter(sw stackless.Writer, level int) {
      sw.Close()
      nLevel := normalizeCompressLevel(level)
      p := stacklessDeflateWriterPoolMap[nLevel]
      p.Put(sw)
  }
  \<close>
\<close>

definition releaseStacklessDeflateWriter ::
  "'c deps \<Rightarrow> 'c pools \<Rightarrow> 'c stackless_Writer \<Rightarrow> 's writer \<Rightarrow> int \<Rightarrow> ('c pools \<times> 's writer) option" where
  "releaseStacklessDeflateWriter d st sw w level =
     (case sw_Close d sw w of (sw', w', err) \<Rightarrow>
      (let nLevel = normalizeCompressLevel level in
       case pool_at (stacklessDeflateWriterPoolMap st) nLevel of
         None \<Rightarrow> None
       | Some p \<Rightarrow>
           Some (st\<lparr>stacklessDeflateWriterPoolMap :=
                       (stacklessDeflateWriterPoolMap st)[nat nLevel := sw' # p]\<rparr>, w')))"

section \<open>Compression\<close>

text \<open>
  \<^verbatim>\<open>
  func WriteDeflateLevel(w io.Writer, p []byte, level int) (int, error) {
      switch w.(type) {
      case *byteSliceWriter,
          *bytes.Buffer,
          *bytebufferpool.ByteBuffer:
          ctx := &compressCtx{w: w, p: p, level: level}
          stacklessWriteDeflate(ctx)
          return len(p), nil
      default:
          zw := AcquireStacklessDeflateWriter(w, level)
          n, err := zw.Write(p)
          releaseStacklessDeflateWriter(zw, level)
          return n, err
      }
  }
  \<close>
  The result carries the pools and the destination after the call.
\<close>

definition WriteDeflateLevel_inline ::
  "'c deps \<Rightarrow> 'c pools \<Rightarrow> 's writer \<Rightarrow> bytes \<Rightarrow> int \<Rightarrow>
     ('c pools \<times> 's writer \<times> int \<times> error option) option" where
  "WriteDeflateLevel_inline d st w p level =
     (case stacklessWriteDeflate d st w p level of
        None \<Rightarrow> None
      | Some (st', w') \<Rightarrow> Some (st', w', int (length p), None))"

definition WriteDeflateLevel_default ::
  "'c deps \<Rightarrow> 'c pools \<Rightarrow> 's writer \<Rightarrow> bytes \<Rightarrow> int \<Rightarrow>
     ('c pools \<times> 's writer \<times> int \<times> error option) option" where
  "WriteDeflateLevel_default d st w p level =
     (case AcquireStacklessDeflateWriter d st level of
        None \<Rightarrow> None
      | Some (st1, zw) \<Rightarrow>
          (case sw_Write d zw w p of (zw', w1, n, err) \<Rightarrow>
           (case releaseStacklessDeflateWriter d st1 zw' w1 level of
              None \<Rightarrow> None
            | Some (st2, w2) \<Rightarrow> Some (st2, w2, n, err))))"

fun WriteDeflateLevel ::
  "'c deps \<Rightarrow> 'c pools \<Rightarrow> 's writer \<Rightarrow> bytes \<Rightarrow> int \<Rightarrow>
     ('c pools \<times> 's writer \<times> int \<times> error option) option" where
  "WriteDeflateLevel d st (ByteSliceWriter b) p level =
     WriteDeflateLevel_inline d st (ByteSliceWriter b) p level"
| "WriteDeflateLevel d st (BytesBuffer b) p level =
     WriteDeflateLevel_inline d st (BytesBuffer b) p level"
| "WriteDeflateLevel d st (ByteBuffer b) p level =
     WriteDeflateLevel_inline d st (ByteBuffer b) p level"
| "WriteDeflateLevel d st (OtherWriter f s) p level =
     WriteDeflateLevel_default d st (OtherWriter f s) p level"

text \<open>
  \<^verbatim>\<open>
  func AppendDeflateBytesLevel(dst, src []byte, level int) ([]byte, error) {
      w := &byteSliceWriter{dst}
      _, err := WriteDeflateLevel(w, src, level)
      return w.b, err
  }
  \<close>
\<close>

definition AppendDeflateBytesLevel ::
  "'c deps \<Rightarrow> 'c pools \<Rightarrow> bytes \<Rightarrow> bytes \<Rightarrow> int \<Rightarrow> ('c pools \<times> bytes \<times> error option) option" where
  "AppendDeflateBytesLevel d st dst src level =
     (case WriteDeflateLevel d st (ByteSliceWriter dst :: unit writer) src level of
        None \<Rightarrow> None
      | Some (st', w, n, err) \<Rightarrow> Some (st', bsw_b w, err))"

section \<open>Decompression\<close>

text \<open>
  \<^verbatim>\<open>
  func acquireFlateReader(r io.Reader) (io.ReadCloser, error) {
      v := flateReaderPool.Get()
      if v == nil {
          zr, err := zlib.NewReader(r)
          if err != nil {
              return nil, err
          }
          return zr, nil
      }
      zr := v.(io.ReadCloser)
      if err := resetFlateReader(zr, r); err != nil {
          return nil, err
      }
      return zr, nil
  }
  \<close>
  The source \<open>r\<close> is a \<open>byteSliceReader\<close> over the payload; \<open>resetFlateReader\<close> is
  \<open>zlib.Resetter.Reset(r, nil)\<close>, which sets the pooled reader up on the new source as
  \<open>zlib.NewReader\<close> sets up a new one. The pool holds zlib readers only, so the type
  assertion of \<open>resetFlateReader\<close> cannot fail.
\<close>

definition resetFlateReader :: "'c deps \<Rightarrow> zlib_Reader \<Rightarrow> bytes \<Rightarrow> error + zlib_Reader" where
  "resetFlateReader d zr src = zlib_NewReader d src"

definition acquireFlateReader :: "'c deps \<Rightarrow> 'c pools \<Rightarrow> bytes \<Rightarrow> 'c pools \<times> (error + zlib_Reader)" where
  "acquireFlateReader d st src =
     (case flateReaderPool st of
        [] \<Rightarrow> (st, zlib_NewReader d src)
      | v # vs \<Rightarrow> (st\<lparr>flateReaderPool := vs\<rparr>, resetFlateReader d v src))"

text \<open>
  \<^verbatim>\<open>
  func releaseFlateReader(zr io.ReadCloser) {
      zr.Close()
      flateReaderPool.Put(zr)
  }
  \<close>
\<close>

definition releaseFlateReader :: "'c pools \<Rightarrow> zlib_Reader \<Rightarrow> 'c pools" where
  "releaseFlateReader st zr = st\<lparr>flateReaderPool := zr # flateReaderPool st\<rparr>"

text \<open>
  Modelled from the spec: \<open>utils.CopyZeroAlloc\<close> and \<open>network.NewWriter\<close> are hertz's, a
  dependency whose code is not among the sources. As the spec (4.4, steps 3 to 5) has
  the copy loop: every chunk the reader delivers is written to the
  destination in order, the count is the number of bytes written, a write error or a
  short write ends the loop, and the reader's error is returned at the end of the stream.
  The result is the reader left behind, the destination, the \<open>int64\<close> count and the error.
\<close>

fun copy_loop ::
  "'s writer \<Rightarrow> bytes list \<Rightarrow> error option \<Rightarrow> int \<Rightarrow> 's writer \<times> bytes list \<times> int \<times> error option" where
  "copy_loop w [] rerr written = (w, [], written, rerr)"
| "copy_loop w (c # cs) rerr written =
     (case io_Write w c of (w', nw, ew) \<Rightarrow>
        (if ew \<noteq> None then (w', cs, written, ew)
         else
           let written = (if nw > 0 then written + nw else written)
           in if int (length c) \<noteq> nw then (w', cs, written, Some ErrShortWrite)
              else copy_loop w' cs rerr written))"

definition CopyZeroAlloc :: "'s writer \<Rightarrow> zlib_Reader \<Rightarrow> zlib_Reader \<times> 's writer \<times> int \<times> error option" where
  "CopyZeroAlloc w zr =
     (case copy_loop w (zr_chunks zr) (zr_err zr) 0 of
        (w', rest, n, err) \<Rightarrow> (zr\<lparr>zr_chunks := rest\<rparr>, w', n, err))"

text \<open>
  The conversion \<open>int(n)\<close> of an \<open>int64\<close> to the platform's \<open>int\<close> keeps the low
  \<open>bits\<close> bits, read as two's complement; \<open>int64(nn)\<close> back is the same number.
\<close>

definition go_int :: "nat \<Rightarrow> int \<Rightarrow> int" where
  "go_int bits n = (n + 2 ^ (bits - 1)) mod 2 ^ bits - 2 ^ (bits - 1)"

text \<open>
  \<^verbatim>\<open>
  func WriteInflate(w io.Writer, p []byte) (int, error) {
      r := &byteSliceReader{p}
      zr, err := acquireFlateReader(r)
      if err != nil {
          return 0, err
      }
      zw := network.NewWriter(w)
      n, err := utils.CopyZeroAlloc(zw, zr)
      releaseFlateReader(zr)
      nn := int(n)
      if int64(nn) != n {
          return 0, fmt.Errorf("too much data inflated: %d", n)
      }
      return nn, err
  }
  \<close>
\<close>

definition WriteInflate ::
  "'c deps \<Rightarrow> 'c pools \<Rightarrow> 's writer \<Rightarrow> bytes \<Rightarrow> 'c pools \<times> 's writer \<times> int \<times> error option" where
  "WriteInflate d st w p =
     (case acquireFlateReader d st p of
        (st1, Inl err) \<Rightarrow> (st1, w, 0, Some err)
      | (st1, Inr zr) \<Rightarrow>
          (case CopyZeroAlloc w zr of (zr', w', n, err) \<Rightarrow>
           (let st2 = releaseFlateReader st1 zr';
                nn = go_int (int_bits d) n
            in if nn \<noteq> n then (st2, w', 0, Some (ErrTooMuchData n))
               else (st2, w', nn, err))))"

text \<open>
  \<^verbatim>\<open>
  func AppendInflateBytes(dst, src []byte) ([]byte, error) {
      w := &byteSliceWriter{dst}
      _, err := WriteInflate(w, src)
      return w.b, err
  }
  \<close>
\<close>

definition AppendInflateBytes ::
  "'c deps \<Rightarrow> 'c pools \<Rightarrow> bytes \<Rightarrow> bytes \<Rightarrow> 'c pools \<times> bytes \<times> error option" where
  "AppendInflateBytes d st dst src =
     (case WriteInflate d st (ByteSliceWriter dst :: unit writer) src of
        (st', w, n, err) \<Rightarrow> (st', bsw_b w, err))"

section \<open>The decompressing handler\<close>

text \<open>
  \<^verbatim>\<open>
  func DefaultDecompressHandle(ctx context.Context, c *app.RequestContext) {
      if len(c.Request.Body()) <= 0 {
          return
      }
      inflateBytes, err := compress.AppendInflateBytes(nil, c.Request.Body())
      if err != nil {
          _ = c.AbortWithError(http.StatusBadRequest, err)
          return
      }
      c.Request.Header.DelBytes([]byte("Content-Encoding"))
      c.Request.Header.DelBytes([]byte("Content-Length"))
      c.Request.SetBody(inflateBytes)
  }
  \<close>
  Of hertz's request context the model keeps the body, the headers (a list of key and
  value, \<open>DelBytes\<close> removing a key) and the status and error of an abort.
\<close>

record RequestContext =
  Request_Body :: bytes
  Request_Header :: "(string \<times> string) list"
  aborted :: "(nat \<times> error) option"

definition DelBytes :: "string \<Rightarrow> (string \<times> string) list \<Rightarrow> (string \<times> string) list" where
  "DelBytes key hs = filter (\<lambda>kv. fst kv \<noteq> key) hs"

definition StatusBadRequest :: nat where
  "StatusBadRequest = 400"

definition DefaultDecompressHandle :: "'c deps \<Rightarrow> 'c pools \<Rightarrow> RequestContext \<Rightarrow> 'c pools \<times> RequestContext" where
  "DefaultDecompressHandle d st c =
     (if length (Request_Body c) \<le> 0 then (st, c)
      else
        (case AppendInflateBytes d st [] (Request_Body c) of
           (st', inflateBytes, Some err) \<Rightarrow> (st', c\<lparr>aborted := Some (StatusBadRequest, err)\<rparr>)
         | (st', inflateBytes, None) \<Rightarrow>
             (st', c\<lparr>Request_Body := inflateBytes,
                     Request_Header :=
                       DelBytes ''Content-Length'' (DelBytes ''Content-Encoding'' (Request_Header c))\<rparr>)))"

section \<open>Well-formed pools\<close>

text \<open>
  The pool maps are made once by \<open>newCompressWriterPoolMap\<close> and never resized, and
  every pooled writer was made by \<open>zlib.NewWriterLevel\<close>, so its level is one zlib
  accepts.
\<close>

definition level_ok :: "int \<Rightarrow> bool" where
  "level_ok level = (zlib_HuffmanOnly \<le> level \<and> level \<le> zlib_BestCompression)"

definition pools_ok :: "'c pools \<Rightarrow> bool" where
  "pools_ok st =
     (length (stacklessDeflateWriterPoolMap st) = 12
      \<and> length (realDeflateWriterPoolMap st) = 12
      \<and> (\<forall>p \<in> set (realDeflateWriterPoolMap st). \<forall>zw \<in> set p. level_ok (zw_level zw))
      \<and> (\<forall>p \<in> set (stacklessDeflateWriterPoolMap st). \<forall>sw \<in> set p.
            level_ok (zw_level (sw_zw sw))))"

text \<open>
  The pool-level invariant of the spec: the writers idle under index \<open>i\<close> have a level
  that normalises to \<open>i\<close>.
\<close>

definition pool_levels_match :: "'c pools \<Rightarrow> bool" where
  "pool_levels_match st =
     ((\<forall>i < length (realDeflateWriterPoolMap st).
         \<forall>zw \<in> set (realDeflateWriterPoolMap st ! i).
           normalizeCompressLevel (zw_level zw) = int i)
      \<and> (\<forall>i < length (stacklessDeflateWriterPoolMap st).
            \<forall>sw \<in> set (stacklessDeflateWriterPoolMap st ! i).
              normalizeCompressLevel (zw_level (sw_zw sw)) = int i))"

text \<open>The stream a writer of a level produces for a payload: what \<open>Write\<close> and \<open>Close\<close> emit.\<close>

definition deflate_stream :: "'c deps \<Rightarrow> int \<Rightarrow> bytes \<Rightarrow> bytes" where
  "deflate_stream d level p =
     (case z_write d (z_init d level) p of (c, out1) \<Rightarrow>
        concat out1 @ concat (snd (z_close d c)))"


section \<open>A reference codec\<close>

text \<open>
  An instance of the codec parameter, to run the model on concrete bytes: the zlib
  framing of RFC 1950 as \<open>compress/zlib\<close> writes it (the two header bytes chosen by the
  level, the Adler-32 checksum at the end), around the payload in stored blocks of
  RFC 1951. The writer emits the header at the first \<open>Write\<close> and everything else at
  \<open>Close\<close>; the reader accepts stored blocks only.
\<close>

definition zlib_header :: "int \<Rightarrow> bytes" where
  "zlib_header level =
     (let flevel = (if level = -2 \<or> level = 0 \<or> level = 1 then 0
                    else if 2 \<le> level \<and> level \<le> 5 then 1
                    else if level = 6 \<or> level = -1 then 2
                    else 3 :: nat);
          flg = flevel * 64
      in [120, of_nat (flg + (31 - (120 * 256 + flg) mod 31))])"

fun adler32_update :: "nat \<times> nat \<Rightarrow> bytes \<Rightarrow> nat \<times> nat" where
  "adler32_update (a, b) [] = (a, b)"
| "adler32_update (a, b) (x # xs) =
     (let a' = (a + unat x) mod 65521 in adler32_update (a', (b + a') mod 65521) xs)"

definition adler32 :: "bytes \<Rightarrow> nat" where
  "adler32 data = (case adler32_update (1, 0) data of (a, b) \<Rightarrow> b * 65536 + a)"

definition be32 :: "nat \<Rightarrow> bytes" where
  "be32 n = [of_nat (n div 16777216 mod 256), of_nat (n div 65536 mod 256),
             of_nat (n div 256 mod 256), of_nat (n mod 256)]"

definition stored_block :: "bool \<Rightarrow> bytes \<Rightarrow> bytes" where
  "stored_block final data =
     (let lo = of_nat (length data mod 256) :: byte;
          hi = of_nat (length data div 256) :: byte
      in [if final then 1 else 0, lo, hi, NOT lo, NOT hi] @ data)"

function stored_blocks :: "bytes \<Rightarrow> bytes" where
  "stored_blocks data =
     (if data = [] then []
      else stored_block False (take 65535 data) @ stored_blocks (drop 65535 data))"
  by pat_completeness auto
termination
  by (relation "measure length") auto

function inflate_stored :: "bytes \<Rightarrow> bytes list \<times> bytes \<times> error option" where
  "inflate_stored src =
     (case src of
        h # l0 # l1 # n0 # n1 # rest \<Rightarrow>
          (if h AND 6 \<noteq> 0 \<or> n0 \<noteq> NOT l0 \<or> n1 \<noteq> NOT l1 then ([], src, Some ErrCorrupt)
           else
             let len = unat l0 + 256 * unat l1 in
             if length rest < len then ([rest], [], Some ErrUnexpectedEOF)
             else if h AND 1 = 1 then ([take len rest], drop len rest, None)
             else (case inflate_stored (drop len rest) of
                     (chunks, rest', err) \<Rightarrow> (take len rest # chunks, rest', err)))
      | _ \<Rightarrow> ([], src, Some ErrUnexpectedEOF))"
  by pat_completeness auto
termination
  by (relation "measure length") auto

record ref_comp =
  rc_level :: int
  rc_wroteHeader :: bool
  rc_buf :: bytes

definition ref_init :: "int \<Rightarrow> ref_comp" where
  "ref_init level = \<lparr>rc_level = level, rc_wroteHeader = False, rc_buf = []\<rparr>"

definition ref_header :: "ref_comp \<Rightarrow> bytes list" where
  "ref_header c = (if rc_wroteHeader c then [] else [zlib_header (rc_level c)])"

definition ref_write :: "ref_comp \<Rightarrow> bytes \<Rightarrow> ref_comp \<times> bytes list" where
  "ref_write c p = (c\<lparr>rc_wroteHeader := True, rc_buf := rc_buf c @ p\<rparr>, ref_header c)"

definition ref_close :: "ref_comp \<Rightarrow> ref_comp \<times> bytes list" where
  "ref_close c =
     (c\<lparr>rc_wroteHeader := True, rc_buf := []\<rparr>,
      ref_header c @ [stored_blocks (rc_buf c) @ stored_block True [], be32 (adler32 (rc_buf c))])"

definition ref_reader :: "bytes \<Rightarrow> error + bytes list \<times> error option" where
  "ref_reader src =
     (case src of
        cmf # flg # body \<Rightarrow>
          (if cmf AND 15 \<noteq> 8 \<or> 7 < drop_bit 4 cmf \<or> (unat cmf * 256 + unat flg) mod 31 \<noteq> 0
           then Inl ErrHeader
           else if flg AND 32 \<noteq> 0 then Inl ErrDictionary
           else
             (case inflate_stored body of
                (chunks, rest, Some err) \<Rightarrow> Inr (filter (\<lambda>c. c \<noteq> []) chunks, Some err)
              | (chunks, rest, None) \<Rightarrow>
                  Inr (filter (\<lambda>c. c \<noteq> []) chunks,
                       if length rest < 4 then Some ErrUnexpectedEOF
                       else if take 4 rest \<noteq> be32 (adler32 (concat chunks)) then Some ErrChecksum
                       else None)))
      | _ \<Rightarrow> Inl ErrUnexpectedEOF)"

definition ref_deps :: "nat \<Rightarrow> ref_comp deps" where
  "ref_deps bits =
     \<lparr>z_init = ref_init, z_write = ref_write, z_close = ref_close, z_reader = ref_reader,
      int_bits = bits\<rparr>"

text \<open>
  The writer the test file uses for the default path of \<open>WriteDeflateLevel\<close>:
  \<^verbatim>\<open>
  func (w *defaultByteWriter) Write(p []byte) (int, error) {
      w.b = append(w.b, p...)
      return len(p), nil
  }
  \<close>
\<close>

definition defaultByteWriter_Write :: "bytes \<Rightarrow> bytes \<Rightarrow> bytes \<times> int \<times> error option" where
  "defaultByteWriter_Write b p = (b @ p, int (length p), None)"

definition defaultByteWriter :: "bytes \<Rightarrow> bytes writer" where
  "defaultByteWriter b = OtherWriter defaultByteWriter_Write b"

section \<open>Byte slices over a store\<close>







declare stored_blocks.simps [simp del]
declare inflate_stored.simps [simp del]
declare byteSliceReader_drain.simps [simp del]

section \<open>Describing the outcome of a call\<close>

text \<open>
  The definitions of this section are not code of the repository: they name what the
  theorems below say the code computes.

  \<open>clamp_level\<close> is the level of the writer \<open>acquireRealDeflateWriter\<close> makes when the
  pool is empty; \<open>real_writer_level\<close> the level of the writer it returns, pooled or new;
  \<open>stackless_writer_level\<close> the same for \<open>AcquireStacklessDeflateWriter\<close>.
\<close>

definition clamp_level :: "int \<Rightarrow> int" where
  "clamp_level level =
     (if level < zlib_HuffmanOnly then zlib_HuffmanOnly
      else if level > zlib_BestCompression then zlib_BestCompression
      else level)"

definition real_writer_level :: "'c pools \<Rightarrow> int \<Rightarrow> int" where
  "real_writer_level st level =
     (case pool_at (realDeflateWriterPoolMap st) (normalizeCompressLevel level) of
        Some (v # vs) \<Rightarrow> zw_level v
      | _ \<Rightarrow> clamp_level level)"

definition stackless_writer_level :: "'c pools \<Rightarrow> int \<Rightarrow> int" where
  "stackless_writer_level st level =
     (case pool_at (stacklessDeflateWriterPoolMap st) (normalizeCompressLevel level) of
        Some (v # vs) \<Rightarrow> zw_level (sw_zw v)
      | _ \<Rightarrow> real_writer_level st level)"

text \<open>A writer as made or reset at a level, and as left by \<open>Write(p)\<close> and \<open>Close()\<close>.\<close>

definition fresh_writer :: "'c deps \<Rightarrow> int \<Rightarrow> 'c zlib_Writer" where
  "fresh_writer d level = \<lparr>zw_level = level, zw_comp = z_init d level, zw_err = None\<rparr>"

definition closed_writer :: "'c deps \<Rightarrow> int \<Rightarrow> bytes \<Rightarrow> 'c zlib_Writer" where
  "closed_writer d level p =
     \<lparr>zw_level = level, zw_comp = fst (z_close d (fst (z_write d (z_init d level) p))),
      zw_err = None\<rparr>"

text \<open>The pools after a call on the inline path and after one on the default path.\<close>

definition after_inline :: "'c deps \<Rightarrow> 'c pools \<Rightarrow> bytes \<Rightarrow> int \<Rightarrow> 'c pools" where
  "after_inline d st p level =
     st\<lparr>realDeflateWriterPoolMap :=
          (realDeflateWriterPoolMap st)
            [nat (normalizeCompressLevel level) :=
               closed_writer d (real_writer_level st level) p
                 # tl (realDeflateWriterPoolMap st ! nat (normalizeCompressLevel level))]\<rparr>"

definition after_default :: "'c deps \<Rightarrow> 'c pools \<Rightarrow> bytes \<Rightarrow> int \<Rightarrow> 'c pools" where
  "after_default d st p level =
     (let i = nat (normalizeCompressLevel level);
          sp = stacklessDeflateWriterPoolMap st ! i;
          rp = realDeflateWriterPoolMap st ! i
      in st\<lparr>stacklessDeflateWriterPoolMap :=
               (stacklessDeflateWriterPoolMap st)
                 [i := \<lparr>sw_zw = closed_writer d (stackless_writer_level st level) p, sw_xw = []\<rparr>
                         # tl sp],
             realDeflateWriterPoolMap :=
               (realDeflateWriterPoolMap st)[i := (if sp = [] then tl rp else rp)]\<rparr>)"

text \<open>The pools between acquiring a stackless writer and releasing it.\<close>

definition after_acquire_stackless :: "'c pools \<Rightarrow> int \<Rightarrow> 'c pools" where
  "after_acquire_stackless st level =
     (let i = nat (normalizeCompressLevel level) in
      if stacklessDeflateWriterPoolMap st ! i = []
      then st\<lparr>realDeflateWriterPoolMap :=
                (realDeflateWriterPoolMap st)[i := tl (realDeflateWriterPoolMap st ! i)]\<rparr>
      else st\<lparr>stacklessDeflateWriterPoolMap :=
                (stacklessDeflateWriterPoolMap st)[i := tl (stacklessDeflateWriterPoolMap st ! i)]\<rparr>)"

text \<open>
  What a stackless writer does with the bytes one operation left in its buffer: nothing
  when there are none, one \<open>Write\<close> to the destination otherwise.
\<close>

definition forward :: "'s writer \<Rightarrow> bytes \<Rightarrow> 's writer \<times> error option" where
  "forward w out =
     (if out = [] then (w, None)
      else (case io_Write w out of (w', n, err) \<Rightarrow> (w', err)))"

text \<open>The bytes the \<open>Write\<close> step and the \<open>Close\<close> step of a writer of a level emit.\<close>

definition write_step_bytes :: "'c deps \<Rightarrow> int \<Rightarrow> bytes \<Rightarrow> bytes" where
  "write_step_bytes d level p = concat (snd (z_write d (z_init d level) p))"

definition close_step_bytes :: "'c deps \<Rightarrow> int \<Rightarrow> bytes \<Rightarrow> bytes" where
  "close_step_bytes d level p = concat (snd (z_close d (fst (z_write d (z_init d level) p))))"


text \<open>
  The error \<open>WriteInflate\<close> returns after a copy that delivered \<open>chunks\<close> and ended with
  \<open>err\<close>.
\<close>

definition inflate_count :: "nat \<Rightarrow> bytes list \<Rightarrow> error option \<Rightarrow> error option" where
  "inflate_count bits chunks err =
     (let n = int (length (concat chunks))
      in if go_int bits n \<noteq> n then Some (ErrTooMuchData n) else err)"

text \<open>
  Two more instances to run the model on: a codec whose reader delivers \<open>2 ^ 31\<close> zero
  bytes on a platform with a 32-bit \<open>int\<close>, and a destination that accepts one \<open>Write\<close>
  and refuses every later one, counting the refusals.
\<close>

definition zeros :: "nat \<Rightarrow> bytes" where
  "zeros n = replicate n 0"

definition bomb_deps :: "unit deps" where
  "bomb_deps =
     \<lparr>z_init = (\<lambda>level. ()), z_write = (\<lambda>c p. ((), [])), z_close = (\<lambda>c. ((), [])),
      z_reader = (\<lambda>src. Inr ([zeros (2 ^ 31)], None)), int_bits = 32\<rparr>"

definition one_shot_Write :: "bytes \<times> nat \<Rightarrow> bytes \<Rightarrow> (bytes \<times> nat) \<times> int \<times> error option" where
  "one_shot_Write s p =
     (if fst s = [] then ((p, snd s), int (length p), None)
      else ((fst s, snd s + 1), 0, Some (ErrWriter 1)))"

section \<open>The level normaliser\<close>

lemma normalizeCompressLevel_in_range:
  "-2 \<le> level \<Longrightarrow> level \<le> 9 \<Longrightarrow> normalizeCompressLevel level = level + 2"
  by (simp add: normalizeCompressLevel_def)

lemma normalizeCompressLevel_out_of_range:
  "level < -2 \<or> level > 9 \<Longrightarrow> normalizeCompressLevel level = 8"
  by (auto simp add: normalizeCompressLevel_def CompressDefaultCompression_def)

lemma normalizeCompressLevel_bounds:
  "0 \<le> normalizeCompressLevel level \<and> normalizeCompressLevel level \<le> 11"
  by (simp add: normalizeCompressLevel_def CompressDefaultCompression_def)

lemma normalizeCompressLevel_nat_less_12: "nat (normalizeCompressLevel level) < 12"
  using normalizeCompressLevel_bounds [of level] by linarith

text \<open>
  Claim C3, as the spec states it: every level outside \<open>-2..9\<close> normalises to the index of
  the exported constant \<open>DefaultCompression = -1\<close>. The code does otherwise: an
  out-of-range level is replaced by \<open>CompressDefaultCompression = 6\<close> and lands on
  index 8, while \<open>DefaultCompression\<close> itself is in range and lands on index 1.
\<close>

theorem normalize_DefaultCompression_counterexample:
  "normalizeCompressLevel 10 = 8 \<and> normalizeCompressLevel DefaultCompression = 1
   \<and> normalizeCompressLevel 10 \<noteq> normalizeCompressLevel DefaultCompression"
  by (simp add: normalizeCompressLevel_def CompressDefaultCompression_def DefaultCompression_def)

text \<open>
  Claim C3, amended: every level outside \<open>-2..9\<close> normalises to the index of
  \<open>CompressDefaultCompression = 6\<close>, which is index 8.
\<close>

theorem normalize_out_of_range_is_CompressDefaultCompression:
  "level < -2 \<or> level > 9 \<Longrightarrow>
     normalizeCompressLevel level = normalizeCompressLevel CompressDefaultCompression
     \<and> normalizeCompressLevel level = 8"
  by (auto simp add: normalizeCompressLevel_def CompressDefaultCompression_def)

theorem normalize_out_of_range_witness:
  "((-7::int) < -2 \<or> (-7::int) > 9)
   \<and> normalizeCompressLevel (-7) = normalizeCompressLevel CompressDefaultCompression
   \<and> normalizeCompressLevel (-7) = 8"
proof -
  have h: "(-7::int) < -2 \<or> (-7::int) > 9" by simp
  from normalize_out_of_range_is_CompressDefaultCompression [OF h] h show ?thesis by simp
qed

text \<open>
  Claim C4: \<open>normalizeCompressLevel\<close> is a total function of the level alone; its result
  always lies in \<open>0..11\<close>; on \<open>-2..9\<close> it is \<open>level + 2\<close>; everywhere else it is the
  default level 6 plus 2, the index 8.
\<close>

theorem normalizeCompressLevel_contract:
  "0 \<le> normalizeCompressLevel level \<and> normalizeCompressLevel level \<le> 11
   \<and> (-2 \<le> level \<and> level \<le> 9 \<longrightarrow> normalizeCompressLevel level = level + 2)
   \<and> (level < -2 \<or> level > 9 \<longrightarrow>
        normalizeCompressLevel level = CompressDefaultCompression + 2
        \<and> normalizeCompressLevel level = 8)"
  by (auto simp add: normalizeCompressLevel_def CompressDefaultCompression_def)

theorem normalizeCompressLevel_contract_witness:
  "normalizeCompressLevel 5 = 7 \<and> normalizeCompressLevel 12 = 8
   \<and> 0 \<le> normalizeCompressLevel 12 \<and> normalizeCompressLevel 12 \<le> 11"
proof -
  have a: "(-2::int) \<le> 5 \<and> (5::int) \<le> 9" by simp
  have b: "(12::int) < -2 \<or> (12::int) > 9" by simp
  from normalizeCompressLevel_contract [of 5] a
  have "normalizeCompressLevel 5 = 5 + 2" by blast
  moreover from normalizeCompressLevel_contract [of 12] b
  have "normalizeCompressLevel 12 = 8" by blast
  ultimately show ?thesis by simp
qed

section \<open>Writes to the in-memory destinations\<close>

lemma write_all_ByteSliceWriter:
  "write_all (ByteSliceWriter b) cs = (ByteSliceWriter (b @ concat cs), None)"
  by (induction cs arbitrary: b) simp_all

lemma write_all_BytesBuffer:
  "write_all (BytesBuffer b) cs = (BytesBuffer (b @ concat cs), None)"
  by (induction cs arbitrary: b) simp_all

lemma write_all_ByteBuffer:
  "write_all (ByteBuffer b) cs = (ByteBuffer (b @ concat cs), None)"
  by (induction cs arbitrary: b) simp_all

lemma zlib_Write_fresh_ByteSliceWriter:
  "zlib_Write d (fresh_writer d lvl) (ByteSliceWriter b) p =
     ((fresh_writer d lvl)\<lparr>zw_comp := fst (z_write d (z_init d lvl) p)\<rparr>,
      ByteSliceWriter (b @ write_step_bytes d lvl p), int (length p), None)"
  by (simp add: zlib_Write_def fresh_writer_def write_all_ByteSliceWriter write_step_bytes_def
      split: prod.splits)

lemma zlib_Write_fresh_BytesBuffer:
  "zlib_Write d (fresh_writer d lvl) (BytesBuffer b) p =
     ((fresh_writer d lvl)\<lparr>zw_comp := fst (z_write d (z_init d lvl) p)\<rparr>,
      BytesBuffer (b @ write_step_bytes d lvl p), int (length p), None)"
  by (simp add: zlib_Write_def fresh_writer_def write_all_BytesBuffer write_step_bytes_def
      split: prod.splits)

lemma zlib_Write_fresh_ByteBuffer:
  "zlib_Write d (fresh_writer d lvl) (ByteBuffer b) p =
     ((fresh_writer d lvl)\<lparr>zw_comp := fst (z_write d (z_init d lvl) p)\<rparr>,
      ByteBuffer (b @ write_step_bytes d lvl p), int (length p), None)"
  by (simp add: zlib_Write_def fresh_writer_def write_all_ByteBuffer write_step_bytes_def
      split: prod.splits)

lemma zlib_Close_written_ByteSliceWriter:
  "zlib_Close d ((fresh_writer d lvl)\<lparr>zw_comp := fst (z_write d (z_init d lvl) p)\<rparr>)
       (ByteSliceWriter b) =
     (closed_writer d lvl p, ByteSliceWriter (b @ close_step_bytes d lvl p), None)"
  by (simp add: zlib_Close_def fresh_writer_def closed_writer_def write_all_ByteSliceWriter
      close_step_bytes_def split: prod.splits)

lemma zlib_Close_written_BytesBuffer:
  "zlib_Close d ((fresh_writer d lvl)\<lparr>zw_comp := fst (z_write d (z_init d lvl) p)\<rparr>)
       (BytesBuffer b) =
     (closed_writer d lvl p, BytesBuffer (b @ close_step_bytes d lvl p), None)"
  by (simp add: zlib_Close_def fresh_writer_def closed_writer_def write_all_BytesBuffer
      close_step_bytes_def split: prod.splits)

lemma zlib_Close_written_ByteBuffer:
  "zlib_Close d ((fresh_writer d lvl)\<lparr>zw_comp := fst (z_write d (z_init d lvl) p)\<rparr>)
       (ByteBuffer b) =
     (closed_writer d lvl p, ByteBuffer (b @ close_step_bytes d lvl p), None)"
  by (simp add: zlib_Close_def fresh_writer_def closed_writer_def write_all_ByteBuffer
      close_step_bytes_def split: prod.splits)

lemma deflate_stream_steps:
  "write_step_bytes d lvl p @ close_step_bytes d lvl p = deflate_stream d lvl p"
  by (simp add: deflate_stream_def write_step_bytes_def close_step_bytes_def split: prod.splits)

section \<open>Acquiring and releasing a codec writer\<close>

lemma level_ok_clamp_level: "level_ok (clamp_level level)"
  by (simp add: level_ok_def clamp_level_def zlib_HuffmanOnly_def zlib_BestCompression_def)

lemma pool_at_ok:
  "length m = 12 \<Longrightarrow>
     pool_at m (normalizeCompressLevel level) = Some (m ! nat (normalizeCompressLevel level))"
  using normalizeCompressLevel_bounds [of level] normalizeCompressLevel_nat_less_12 [of level]
  by (simp add: pool_at_def)

lemma zlib_NewWriterLevel_clamp:
  "zlib_NewWriterLevel d level = (zw, Some err) \<Longrightarrow>
     fst (zlib_NewWriterLevel d
            (if level < zlib_HuffmanOnly then zlib_HuffmanOnly else zlib_BestCompression))
       = Some (fresh_writer d (clamp_level level))"
  by (auto simp add: zlib_NewWriterLevel_def clamp_level_def fresh_writer_def
      zlib_HuffmanOnly_def zlib_BestCompression_def split: if_splits)

lemma zlib_NewWriterLevel_ok:
  "zlib_NewWriterLevel d level = (zw, None) \<Longrightarrow> zw = Some (fresh_writer d (clamp_level level))"
  by (auto simp add: zlib_NewWriterLevel_def clamp_level_def fresh_writer_def
      zlib_HuffmanOnly_def zlib_BestCompression_def split: if_splits)

lemma acquireRealDeflateWriter_eq:
  assumes "length (realDeflateWriterPoolMap st) = 12"
  shows "acquireRealDeflateWriter d st level =
     Some (st\<lparr>realDeflateWriterPoolMap :=
                (realDeflateWriterPoolMap st)
                  [nat (normalizeCompressLevel level) :=
                     tl (realDeflateWriterPoolMap st ! nat (normalizeCompressLevel level))]\<rparr>,
           Some (fresh_writer d (real_writer_level st level)))"
proof (cases "realDeflateWriterPoolMap st ! nat (normalizeCompressLevel level)")
  case Nil
  then have upd:
    "(realDeflateWriterPoolMap st)[nat (normalizeCompressLevel level) := tl []]
       = realDeflateWriterPoolMap st"
    by (metis list_update_id list.sel(2))
  show ?thesis
    using Nil assms upd
    by (auto simp add: acquireRealDeflateWriter_def pool_at_ok real_writer_level_def Let_def
        dest: zlib_NewWriterLevel_clamp zlib_NewWriterLevel_ok split: prod.splits option.splits)
next
  case (Cons v vs)
  then show ?thesis
    using assms
    by (simp add: acquireRealDeflateWriter_def pool_at_ok real_writer_level_def fresh_writer_def
        zlib_Reset_def Let_def)
qed

lemma nonblockingWriteDeflate_ByteSliceWriter:
  assumes "length (realDeflateWriterPoolMap st) = 12"
  shows "nonblockingWriteDeflate d st (ByteSliceWriter b) p level =
     Some (after_inline d st p level,
           ByteSliceWriter (b @ deflate_stream d (real_writer_level st level) p))"
  using assms normalizeCompressLevel_nat_less_12 [of level]
  by (simp add: nonblockingWriteDeflate_def acquireRealDeflateWriter_eq
      zlib_Write_fresh_ByteSliceWriter releaseRealDeflateWriter_def
      zlib_Close_written_ByteSliceWriter pool_at_ok after_inline_def
      deflate_stream_steps Let_def)

lemma nonblockingWriteDeflate_BytesBuffer:
  assumes "length (realDeflateWriterPoolMap st) = 12"
  shows "nonblockingWriteDeflate d st (BytesBuffer b) p level =
     Some (after_inline d st p level,
           BytesBuffer (b @ deflate_stream d (real_writer_level st level) p))"
  using assms normalizeCompressLevel_nat_less_12 [of level]
  by (simp add: nonblockingWriteDeflate_def acquireRealDeflateWriter_eq
      zlib_Write_fresh_BytesBuffer releaseRealDeflateWriter_def
      zlib_Close_written_BytesBuffer pool_at_ok after_inline_def
      deflate_stream_steps Let_def)

lemma nonblockingWriteDeflate_ByteBuffer:
  assumes "length (realDeflateWriterPoolMap st) = 12"
  shows "nonblockingWriteDeflate d st (ByteBuffer b) p level =
     Some (after_inline d st p level,
           ByteBuffer (b @ deflate_stream d (real_writer_level st level) p))"
  using assms normalizeCompressLevel_nat_less_12 [of level]
  by (simp add: nonblockingWriteDeflate_def acquireRealDeflateWriter_eq
      zlib_Write_fresh_ByteBuffer releaseRealDeflateWriter_def
      zlib_Close_written_ByteBuffer pool_at_ok after_inline_def
      deflate_stream_steps Let_def)

lemma AppendDeflateBytesLevel_eq:
  assumes "length (realDeflateWriterPoolMap st) = 12"
  shows "AppendDeflateBytesLevel d st dst src level =
     Some (after_inline d st src level,
           dst @ deflate_stream d (real_writer_level st level) src, None)"
  using assms
  by (simp add: AppendDeflateBytesLevel_def WriteDeflateLevel_inline_def stacklessWriteDeflate_def
      nonblockingWriteDeflate_ByteSliceWriter)

section \<open>Well-formed pools stay well-formed\<close>

lemma pools_ok_init_pools: "pools_ok init_pools"
  by (auto simp add: pools_ok_def init_pools_def newCompressWriterPoolMap_def)

lemma pools_ok_nth_real:
  assumes "pools_ok st"
    and "zw \<in> set (realDeflateWriterPoolMap st ! nat (normalizeCompressLevel level))"
  shows "level_ok (zw_level zw)"
proof -
  have "nat (normalizeCompressLevel level) < length (realDeflateWriterPoolMap st)"
    using assms(1) normalizeCompressLevel_nat_less_12 [of level] by (simp add: pools_ok_def)
  then have "realDeflateWriterPoolMap st ! nat (normalizeCompressLevel level)
               \<in> set (realDeflateWriterPoolMap st)"
    by (rule nth_mem)
  with assms show ?thesis by (auto simp add: pools_ok_def)
qed

lemma level_ok_real_writer_level:
  assumes "pools_ok st"
  shows "level_ok (real_writer_level st level)"
proof (cases "realDeflateWriterPoolMap st ! nat (normalizeCompressLevel level)")
  case Nil
  with assms show ?thesis
    by (simp add: real_writer_level_def pool_at_ok pools_ok_def level_ok_clamp_level)
next
  case (Cons v vs)
  then have "level_ok (zw_level v)"
    using pools_ok_nth_real [OF assms, of v level] by simp
  with Cons assms show ?thesis
    by (simp add: real_writer_level_def pool_at_ok pools_ok_def)
qed

lemma pools_ok_real_update:
  assumes "pools_ok st" and "\<forall>zw \<in> set q. level_ok (zw_level zw)"
  shows "pools_ok (st\<lparr>realDeflateWriterPoolMap := (realDeflateWriterPoolMap st)[i := q]\<rparr>)"
proof -
  have "set ((realDeflateWriterPoolMap st)[i := q]) \<subseteq> insert q (set (realDeflateWriterPoolMap st))"
    by (rule set_update_subset_insert)
  with assms show ?thesis
    by (auto simp add: pools_ok_def)
qed

lemma pools_ok_after_inline:
  assumes "pools_ok st"
  shows "pools_ok (after_inline d st p level)"
  unfolding after_inline_def
proof (rule pools_ok_real_update [OF assms], rule ballI)
  fix zw
  assume "zw \<in> set (closed_writer d (real_writer_level st level) p
                     # tl (realDeflateWriterPoolMap st ! nat (normalizeCompressLevel level)))"
  then consider "zw = closed_writer d (real_writer_level st level) p"
    | "zw \<in> set (tl (realDeflateWriterPoolMap st ! nat (normalizeCompressLevel level)))"
    by auto
  then show "level_ok (zw_level zw)"
  proof cases
    case 1
    then show ?thesis
      using level_ok_real_writer_level [OF assms, of level] by (simp add: closed_writer_def)
  next
    case 2
    then have "zw \<in> set (realDeflateWriterPoolMap st ! nat (normalizeCompressLevel level))"
      by (metis list.sel(2) list.set_sel(2))
    then show ?thesis by (rule pools_ok_nth_real [OF assms])
  qed
qed

section \<open>Decompression into a byte slice\<close>

text \<open>Read to the end with any buffer that is not empty, the source delivers the payload.\<close>

lemma byteSliceReader_drain_payload: "0 < m \<Longrightarrow> byteSliceReader_drain m b = b"
proof (induction m b rule: byteSliceReader_drain.induct)
  case (1 m b)
  show ?case
  proof (cases "b = []")
    case True
    with 1 show ?thesis
      by (subst byteSliceReader_drain.simps) (simp add: byteSliceReader_Read_def)
  next
    case False
    then have rd: "byteSliceReader_Read b m = (drop (min m (length b)) b, take (min m (length b)) b, False)"
      by (simp add: byteSliceReader_Read_def Let_def)
    from 1(1) [OF _ rd [symmetric] refl refl] 1(2)
    have "byteSliceReader_drain m (drop (min m (length b)) b) = drop (min m (length b)) b"
      by simp
    with 1(2) rd show ?thesis
      by (subst byteSliceReader_drain.simps) simp
  qed
qed

lemma copy_loop_ByteSliceWriter:
  "copy_loop (ByteSliceWriter b) cs rerr k =
     (ByteSliceWriter (b @ concat cs), [], k + int (length (concat cs)), rerr)"
  by (induction cs arbitrary: b k) (simp_all add: Let_def)

lemma AppendInflateBytes_eq:
  "AppendInflateBytes d st dst src =
     (case z_reader d src of
        Inl err \<Rightarrow> (st\<lparr>flateReaderPool := tl (flateReaderPool st)\<rparr>, dst, Some err)
      | Inr (chunks, err) \<Rightarrow>
          (st\<lparr>flateReaderPool := \<lparr>zr_chunks = [], zr_err = err\<rparr> # tl (flateReaderPool st)\<rparr>,
           dst @ concat chunks, inflate_count (int_bits d) chunks err))"
  by (cases "flateReaderPool st")
     (auto simp add: AppendInflateBytes_def WriteInflate_def acquireFlateReader_def
        zlib_NewReader_def resetFlateReader_def CopyZeroAlloc_def copy_loop_ByteSliceWriter
        releaseFlateReader_def inflate_count_def Let_def split: sum.splits prod.splits)



section \<open>The reference codec round-trips\<close>









lemma deflate_stream_ref:
  "deflate_stream (ref_deps bits) level p =
     zlib_header level @ stored_blocks p @ stored_block True [] @ be32 (adler32 p)"
  by (simp add: deflate_stream_def ref_deps_def ref_write_def ref_close_def ref_init_def ref_header_def)



section \<open>Round trip\<close>



section \<open>Overflow of the inflated count\<close>

lemma length_zeros: "length (zeros n) = n"
  by (simp add: zeros_def)

text \<open>
  Claim C9: when the \<open>int64\<close> count \<open>n\<close> of the bytes \<open>WriteInflate\<close> copied does not
  survive the conversion to \<open>int\<close> (\<open>int64(int(n)) != n\<close>), \<open>WriteInflate\<close> returns the
  count 0 and the error "too much data inflated", whatever the copy's own error was.
\<close>

theorem WriteInflate_overflow:
  assumes "acquireFlateReader d st p = (st1, Inr zr)"
    and "CopyZeroAlloc w zr = (zr', w', n, err)"
    and "go_int (int_bits d) n \<noteq> n"
  shows "WriteInflate d st w p = (releaseFlateReader st1 zr', w', 0, Some (ErrTooMuchData n))"
  using assms by (simp add: WriteInflate_def Let_def)

theorem WriteInflate_overflow_witness:
  "go_int (int_bits bomb_deps) 2147483648 \<noteq> 2147483648
   \<and> WriteInflate bomb_deps init_pools (ByteSliceWriter [] :: unit writer) [120, 156]
       = (releaseFlateReader init_pools \<lparr>zr_chunks = [], zr_err = None\<rparr>,
          ByteSliceWriter (zeros (2 ^ 31)), 0, Some (ErrTooMuchData 2147483648))"
proof -
  have a: "acquireFlateReader bomb_deps init_pools [120, 156]
             = (init_pools, Inr \<lparr>zr_chunks = [zeros (2 ^ 31)], zr_err = None\<rparr>)"
    by (simp add: acquireFlateReader_def init_pools_def zlib_NewReader_def bomb_deps_def)
  have c: "CopyZeroAlloc (ByteSliceWriter [] :: unit writer)
              \<lparr>zr_chunks = [zeros (2 ^ 31)], zr_err = None\<rparr>
             = (\<lparr>zr_chunks = [], zr_err = None\<rparr>, ByteSliceWriter (zeros (2 ^ 31)),
                2147483648, None)"
    by (simp add: CopyZeroAlloc_def copy_loop_ByteSliceWriter length_zeros)
  have g: "go_int (int_bits bomb_deps) 2147483648 \<noteq> 2147483648"
    by (simp add: go_int_def bomb_deps_def)
  from WriteInflate_overflow [OF a c g] g show ?thesis by simp
qed

section \<open>The buffer path reports no error\<close>

lemma WriteDeflateLevel_ByteSliceWriter:
  assumes "length (realDeflateWriterPoolMap st) = 12"
  shows "WriteDeflateLevel d st (ByteSliceWriter b) p level =
     Some (after_inline d st p level,
           ByteSliceWriter (b @ deflate_stream d (real_writer_level st level) p),
           int (length p), None)"
  using assms
  by (simp add: WriteDeflateLevel_inline_def stacklessWriteDeflate_def
      nonblockingWriteDeflate_ByteSliceWriter)

lemma WriteDeflateLevel_BytesBuffer:
  assumes "length (realDeflateWriterPoolMap st) = 12"
  shows "WriteDeflateLevel d st (BytesBuffer b) p level =
     Some (after_inline d st p level,
           BytesBuffer (b @ deflate_stream d (real_writer_level st level) p),
           int (length p), None)"
  using assms
  by (simp add: WriteDeflateLevel_inline_def stacklessWriteDeflate_def
      nonblockingWriteDeflate_BytesBuffer)

lemma WriteDeflateLevel_ByteBuffer:
  assumes "length (realDeflateWriterPoolMap st) = 12"
  shows "WriteDeflateLevel d st (ByteBuffer b) p level =
     Some (after_inline d st p level,
           ByteBuffer (b @ deflate_stream d (real_writer_level st level) p),
           int (length p), None)"
  using assms
  by (simp add: WriteDeflateLevel_inline_def stacklessWriteDeflate_def
      nonblockingWriteDeflate_ByteBuffer)

text \<open>
  Claim C10: for every \<open>dst\<close>, \<open>src\<close> and integer level, \<open>AppendDeflateBytesLevel\<close>
  returns a nil error, because \<open>WriteDeflateLevel\<close> returns \<open>(len(p), nil)\<close> for each of
  the three in-memory destination types, whatever the codec writer did. The pools are any
  well-formed pools; the call does not panic.
\<close>

theorem buffer_path_no_error:
  assumes "pools_ok st"
  shows "(\<exists>st' out. AppendDeflateBytesLevel d st dst src level = Some (st', out, None))
       \<and> (\<exists>st' w'. WriteDeflateLevel d st (ByteSliceWriter dst) src level
                      = Some (st', w', int (length src), None))
       \<and> (\<exists>st' w'. WriteDeflateLevel d st (BytesBuffer dst) src level
                      = Some (st', w', int (length src), None))
       \<and> (\<exists>st' w'. WriteDeflateLevel d st (ByteBuffer dst) src level
                      = Some (st', w', int (length src), None))"
proof -
  have len12: "length (realDeflateWriterPoolMap st) = 12"
    using assms by (simp add: pools_ok_def)
  show ?thesis
    using AppendDeflateBytesLevel_eq [OF len12, of d dst src level]
      WriteDeflateLevel_ByteSliceWriter [OF len12, of d dst src level]
      WriteDeflateLevel_BytesBuffer [OF len12, of d dst src level]
      WriteDeflateLevel_ByteBuffer [OF len12, of d dst src level]
    by blast
qed

theorem buffer_path_no_error_witness:
  "pools_ok (init_pools :: ref_comp pools)
   \<and> (\<exists>st' out. AppendDeflateBytesLevel (ref_deps 64) init_pools [88, 89, 90] [104, 105] (-7)
                    = Some (st', out, None))"
  using buffer_path_no_error [OF pools_ok_init_pools, of "ref_deps 64" "[88, 89, 90]" "[104, 105]" "-7"]
    pools_ok_init_pools
  by blast

section \<open>Decompressing an empty payload\<close>

lemma WriteInflate_reader_error:
  assumes "z_reader d p = Inl err"
  shows "WriteInflate d st w p = (st\<lparr>flateReaderPool := tl (flateReaderPool st)\<rparr>, w, 0, Some err)"
  using assms
  by (cases "flateReaderPool st")
     (simp_all add: WriteInflate_def acquireFlateReader_def zlib_NewReader_def resetFlateReader_def)

text \<open>
  Claim C2, as the spec states it: decompressing a zero-length payload returns
  \<open>(dst, nil)\<close> and count 0 without setting up a codec reader. \<open>WriteInflate\<close> has no
  such guard: it acquires a reader on the empty source, and zlib's reader setup fails
  there for want of the two header bytes. With the reference codec, whose reader checks
  the header as zlib does, the call returns the error.
\<close>

theorem empty_payload_counterexample:
  "WriteInflate (ref_deps 64) init_pools (ByteSliceWriter [33, 33, 33] :: unit writer) []
     = (init_pools, ByteSliceWriter [33, 33, 33], 0, Some ErrUnexpectedEOF)
   \<and> AppendInflateBytes (ref_deps 64) init_pools [33, 33, 33] []
     = (init_pools, [33, 33, 33], Some ErrUnexpectedEOF)"
  by (simp add: AppendInflateBytes_def WriteInflate_def acquireFlateReader_def init_pools_def
      zlib_NewReader_def ref_deps_def ref_reader_def)

text \<open>
  Claim C2, amended: the no-op on an empty payload is the caller's.
  \<open>DefaultDecompressHandle\<close> returns at once on an empty body, leaving the request and
  the pools as they were. \<open>WriteInflate\<close> and \<open>AppendInflateBytes\<close> themselves always
  acquire a reader (a pooled one is taken out of the pool); when its setup on the empty
  source fails with \<open>err\<close> they return \<open>err\<close>, the count 0 and the destination unchanged.
\<close>

theorem empty_payload_amended:
  "(Request_Body c = [] \<longrightarrow> DefaultDecompressHandle d st c = (st, c))
   \<and> (z_reader d [] = Inl err \<longrightarrow>
        WriteInflate d st w [] = (st\<lparr>flateReaderPool := tl (flateReaderPool st)\<rparr>, w, 0, Some err)
        \<and> AppendInflateBytes d st dst []
            = (st\<lparr>flateReaderPool := tl (flateReaderPool st)\<rparr>, dst, Some err))"
  by (simp add: DefaultDecompressHandle_def WriteInflate_reader_error AppendInflateBytes_eq)

theorem empty_payload_amended_witness:
  "z_reader (ref_deps 64) [] = Inl ErrUnexpectedEOF
   \<and> DefaultDecompressHandle (ref_deps 64) init_pools
        \<lparr>Request_Body = [], Request_Header = [(''Content-Encoding'', ''deflate'')], aborted = None\<rparr>
       = (init_pools,
          \<lparr>Request_Body = [], Request_Header = [(''Content-Encoding'', ''deflate'')], aborted = None\<rparr>)
   \<and> AppendInflateBytes (ref_deps 64)
        (init_pools\<lparr>flateReaderPool := [\<lparr>zr_chunks = [], zr_err = None\<rparr>]\<rparr>) [33] []
       = (init_pools\<lparr>flateReaderPool := []\<rparr>, [33], Some ErrUnexpectedEOF)"
proof -
  have r: "z_reader (ref_deps 64) [] = Inl ErrUnexpectedEOF"
    by (simp add: ref_deps_def ref_reader_def)
  have b: "Request_Body \<lparr>Request_Body = [], Request_Header = [(''Content-Encoding'', ''deflate'')],
             aborted = None\<rparr> = []"
    by simp
  from empty_payload_amended
    [where c = "\<lparr>Request_Body = [], Request_Header = [(''Content-Encoding'', ''deflate'')],
                  aborted = None\<rparr>"
       and d = "ref_deps 64" and st = init_pools and err = ErrUnexpectedEOF
       and w = "ByteSliceWriter [] :: unit writer" and dst = "[]"]
    b
  have h: "DefaultDecompressHandle (ref_deps 64) init_pools
        \<lparr>Request_Body = [], Request_Header = [(''Content-Encoding'', ''deflate'')], aborted = None\<rparr>
       = (init_pools,
          \<lparr>Request_Body = [], Request_Header = [(''Content-Encoding'', ''deflate'')], aborted = None\<rparr>)"
    by blast
  from empty_payload_amended
    [where d = "ref_deps 64" and err = ErrUnexpectedEOF and dst = "[33]"
       and st = "init_pools\<lparr>flateReaderPool := [\<lparr>zr_chunks = [], zr_err = None\<rparr>]\<rparr>"
       and w = "ByteSliceWriter [] :: unit writer"
       and c = "\<lparr>Request_Body = [], Request_Header = [], aborted = None\<rparr>"]
    r
  have a: "AppendInflateBytes (ref_deps 64)
        (init_pools\<lparr>flateReaderPool := [\<lparr>zr_chunks = [], zr_err = None\<rparr>]\<rparr>) [33] []
       = (init_pools\<lparr>flateReaderPool := []\<rparr>, [33], Some ErrUnexpectedEOF)"
    by simp
  from r h a show ?thesis by blast
qed

section \<open>The level of a pooled writer\<close>

lemma real_writer_level_init_pools: "real_writer_level init_pools level = clamp_level level"
  using normalizeCompressLevel_nat_less_12 [of level]
  by (simp add: real_writer_level_def init_pools_def pool_at_ok newCompressWriterPoolMap_def)

lemma length_real_init_pools: "length (realDeflateWriterPoolMap init_pools) = 12"
  by (simp add: init_pools_def newCompressWriterPoolMap_def)

lemma length_stackless_init_pools: "length (stacklessDeflateWriterPoolMap init_pools) = 12"
  by (simp add: init_pools_def newCompressWriterPoolMap_def)

lemma real_after_inline_init_pools_100:
  "realDeflateWriterPoolMap (after_inline d init_pools src 100) ! 8 = [closed_writer d 9 src]"
proof -
  have "real_writer_level (init_pools :: 'a pools) 100 = 9"
    by (simp add: real_writer_level_init_pools clamp_level_def zlib_HuffmanOnly_def
        zlib_BestCompression_def)
  moreover have "nat (normalizeCompressLevel 100) = 8"
    by (simp add: normalizeCompressLevel_def CompressDefaultCompression_def)
  moreover have "realDeflateWriterPoolMap (init_pools :: 'a pools) ! 8 = []"
    by (simp add: init_pools_def newCompressWriterPoolMap_def)
  ultimately show ?thesis
    using length_real_init_pools [where ?'a = 'a] by (simp add: after_inline_def)
qed

text \<open>
  Claim C5 says a writer taken from the writer pool at index \<open>i\<close> has the level of
  index \<open>i\<close>, also when the requested level is out of range and construction falls back
  to clamping. The code files a writer under \<open>normalizeCompressLevel(level)\<close>, which
  sends an out-of-range level to the default level 6 (index 8), but makes it with the
  level clamped to \<open>-2\<close> or \<open>9\<close>. From the initial pools, one call with level 100 leaves
  a writer of level 9 (whose index is 11) idle under index 8, and the next request for
  the default level 6 is given that writer.
\<close>

theorem pool_level_mismatch:
  "\<exists>st1 out zw.
      AppendDeflateBytesLevel d init_pools [] src 100 = Some (st1, out, None)
      \<and> normalizeCompressLevel 100 = 8
      \<and> realDeflateWriterPoolMap st1 ! 8 = [zw]
      \<and> zw_level zw = 9
      \<and> normalizeCompressLevel (zw_level zw) = 11
      \<and> normalizeCompressLevel CompressDefaultCompression = 8
      \<and> (\<exists>st2 zw'. acquireRealDeflateWriter d st1 CompressDefaultCompression = Some (st2, Some zw')
                     \<and> zw_level zw' = 9)"
proof -
  let ?st1 = "after_inline d init_pools src 100"
  have run: "AppendDeflateBytesLevel d init_pools [] src 100
               = Some (?st1, deflate_stream d 9 src, None)"
    using AppendDeflateBytesLevel_eq [OF length_real_init_pools, of d "[]" src 100]
    by (simp add: real_writer_level_init_pools clamp_level_def zlib_HuffmanOnly_def
        zlib_BestCompression_def)
  have pool: "realDeflateWriterPoolMap ?st1 ! 8 = [closed_writer d 9 src]"
    by (rule real_after_inline_init_pools_100)
  have n100: "normalizeCompressLevel 100 = 8"
    by (simp add: normalizeCompressLevel_def CompressDefaultCompression_def)
  have n6: "normalizeCompressLevel CompressDefaultCompression = 8"
    by (simp add: normalizeCompressLevel_def CompressDefaultCompression_def)
  have n9: "normalizeCompressLevel 9 = 11"
    by (simp add: normalizeCompressLevel_def)
  have len1: "length (realDeflateWriterPoolMap ?st1) = 12"
    by (simp add: after_inline_def length_real_init_pools)
  have "real_writer_level ?st1 CompressDefaultCompression = 9"
    using pool len1 by (simp add: real_writer_level_def pool_at_def n6 closed_writer_def)
  with acquireRealDeflateWriter_eq [OF len1, of d CompressDefaultCompression]
  have acq: "\<exists>st2 zw'. acquireRealDeflateWriter d ?st1 CompressDefaultCompression = Some (st2, Some zw')
                       \<and> zw_level zw' = 9"
    by (simp add: fresh_writer_def)
  have lvl: "zw_level (closed_writer d 9 src) = 9"
    by (simp add: closed_writer_def)
  from run pool n100 n6 n9 lvl acq show ?thesis
    by (intro exI [of _ ?st1] exI [of _ "deflate_stream d 9 src"]
        exI [of _ "closed_writer d 9 src"]) simp
qed

section \<open>The default path\<close>

lemma sw_Write_fresh:
  "sw_Write d \<lparr>sw_zw = fresh_writer d lvl, sw_xw = []\<rparr> w p =
     (\<lparr>sw_zw = (fresh_writer d lvl)\<lparr>zw_comp := fst (z_write d (z_init d lvl) p)\<rparr>, sw_xw = []\<rparr>,
      fst (forward w (write_step_bytes d lvl p)), int (length p),
      snd (forward w (write_step_bytes d lvl p)))"
  by (simp add: sw_Write_def zlib_Write_fresh_ByteBuffer sw_flush_def forward_def
      split: prod.splits)

lemma sw_Close_written:
  "sw_Close d \<lparr>sw_zw = (fresh_writer d lvl)\<lparr>zw_comp := fst (z_write d (z_init d lvl) p)\<rparr>,
               sw_xw = []\<rparr> w =
     (\<lparr>sw_zw = closed_writer d lvl p, sw_xw = []\<rparr>,
      fst (forward w (close_step_bytes d lvl p)), snd (forward w (close_step_bytes d lvl p)))"
  by (simp add: sw_Close_def zlib_Close_written_ByteBuffer sw_flush_def forward_def
      split: prod.splits)

lemma AcquireStacklessDeflateWriter_eq:
  assumes "length (realDeflateWriterPoolMap st) = 12"
    and "length (stacklessDeflateWriterPoolMap st) = 12"
  shows "AcquireStacklessDeflateWriter d st level =
     Some (after_acquire_stackless st level,
           \<lparr>sw_zw = fresh_writer d (stackless_writer_level st level), sw_xw = []\<rparr>)"
proof (cases "stacklessDeflateWriterPoolMap st ! nat (normalizeCompressLevel level)")
  case Nil
  with assms show ?thesis
    by (simp add: AcquireStacklessDeflateWriter_def pool_at_ok acquireRealDeflateWriter_eq
        after_acquire_stackless_def stackless_writer_level_def Let_def)
next
  case (Cons v vs)
  with assms show ?thesis
    by (simp add: AcquireStacklessDeflateWriter_def pool_at_ok sw_Reset_def zlib_Reset_def
        fresh_writer_def after_acquire_stackless_def stackless_writer_level_def Let_def)
qed

lemma length_after_acquire_stackless:
  "length (stacklessDeflateWriterPoolMap (after_acquire_stackless st level))
     = length (stacklessDeflateWriterPoolMap st)"
  by (simp add: after_acquire_stackless_def Let_def)

lemma release_after_acquire_stackless:
  assumes "length (stacklessDeflateWriterPoolMap st) = 12"
  shows "(after_acquire_stackless st level)
           \<lparr>stacklessDeflateWriterPoolMap :=
              (stacklessDeflateWriterPoolMap (after_acquire_stackless st level))
                [nat (normalizeCompressLevel level) :=
                   \<lparr>sw_zw = closed_writer d (stackless_writer_level st level) p, sw_xw = []\<rparr>
                   # stacklessDeflateWriterPoolMap (after_acquire_stackless st level)
                       ! nat (normalizeCompressLevel level)]\<rparr>
         = after_default d st p level"
  using assms normalizeCompressLevel_nat_less_12 [of level]
  by (cases "stacklessDeflateWriterPoolMap st ! nat (normalizeCompressLevel level)")
     (simp_all add: after_acquire_stackless_def after_default_def Let_def)

lemma WriteDeflateLevel_default_eq:
  assumes "length (realDeflateWriterPoolMap st) = 12"
    and "length (stacklessDeflateWriterPoolMap st) = 12"
  shows "WriteDeflateLevel_default d st w p level =
     Some (after_default d st p level,
           fst (forward (fst (forward w (write_step_bytes d (stackless_writer_level st level) p)))
                  (close_step_bytes d (stackless_writer_level st level) p)),
           int (length p),
           snd (forward w (write_step_bytes d (stackless_writer_level st level) p)))"
  using assms length_after_acquire_stackless [of st level]
  by (simp add: WriteDeflateLevel_default_def AcquireStacklessDeflateWriter_eq sw_Write_fresh
      releaseStacklessDeflateWriter_def sw_Close_written pool_at_ok
      release_after_acquire_stackless Let_def split: prod.splits)

lemma io_Write_defaultByteWriter:
  "io_Write (defaultByteWriter b) p = (defaultByteWriter (b @ p), int (length p), None)"
  by (simp add: defaultByteWriter_def defaultByteWriter_Write_def)

lemma forward_defaultByteWriter:
  "forward (defaultByteWriter b) out = (defaultByteWriter (b @ out), None)"
  by (simp add: forward_def io_Write_defaultByteWriter)

lemma WriteDeflateLevel_defaultByteWriter:
  assumes "length (realDeflateWriterPoolMap st) = 12"
    and "length (stacklessDeflateWriterPoolMap st) = 12"
  shows "WriteDeflateLevel d st (defaultByteWriter b) p level =
     Some (after_default d st p level,
           defaultByteWriter (b @ deflate_stream d (stackless_writer_level st level) p),
           int (length p), None)"
proof -
  have "WriteDeflateLevel d st (defaultByteWriter b) p level
          = WriteDeflateLevel_default d st (defaultByteWriter b) p level"
    by (simp add: defaultByteWriter_def)
  then show ?thesis
    using assms
    by (simp add: WriteDeflateLevel_default_eq forward_defaultByteWriter
        deflate_stream_steps [symmetric])
qed


lemma stored_blocks_Nil: "stored_blocks [] = []"
  by (simp add: stored_blocks.simps)

lemma stored_blocks_small:
  "data \<noteq> [] \<Longrightarrow> length data \<le> 65535 \<Longrightarrow> stored_blocks data = stored_block False data"
  by (subst stored_blocks.simps) (simp add: stored_blocks_Nil)

lemma adler32_hello: "be32 (adler32 [104, 101, 108, 108, 111]) = [6, 44, 2, 21]"
  by (simp add: adler32_def be32_def Let_def)

lemma deflate_stream_ref_hello:
  "deflate_stream (ref_deps bits) level [104, 101, 108, 108, 111] =
     zlib_header level @ [0, 5, 0, 250, 255, 104, 101, 108, 108, 111, 1, 0, 0, 255, 255, 6, 44, 2, 21]"
  by (simp add: deflate_stream_ref stored_blocks_small stored_block_def adler32_hello)

lemma write_step_bytes_ref: "write_step_bytes (ref_deps bits) level p = zlib_header level"
  by (simp add: write_step_bytes_def ref_deps_def ref_write_def ref_init_def ref_header_def)

lemma close_step_bytes_ref:
  "close_step_bytes (ref_deps bits) level p =
     stored_blocks p @ stored_block True [] @ be32 (adler32 p)"
  by (simp add: close_step_bytes_def ref_deps_def ref_write_def ref_close_def ref_init_def
      ref_header_def)


lemma snd_forward_OtherWriter:
  "snd (forward (OtherWriter f s) out) = (if out = [] then None else snd (snd (f s out)))"
  by (simp add: forward_def split: prod.splits)

text \<open>
  Claim C7, amended: \<open>WriteDeflateLevel\<close> returns \<open>len(p)\<close> as its count. For a
  destination that is none of the three in-memory types it returns the error of the
  destination's \<open>Write\<close> of the bytes the codec emitted for \<open>p\<close> (nil when the codec
  emitted none in that step); for the in-memory types it returns a nil error. The pools
  are any well-formed pools; the call does not panic.
\<close>

theorem WriteDeflateLevel_count_and_error:
  assumes "pools_ok st"
  shows "(\<exists>st' w'. WriteDeflateLevel d st (OtherWriter f s) p level =
            Some (st', w', int (length p),
                  (let out = write_step_bytes d (stackless_writer_level st level) p
                   in if out = [] then None else snd (snd (f s out)))))
       \<and> (\<exists>st' w'. WriteDeflateLevel d st (ByteSliceWriter b) p level
                      = Some (st', w', int (length p), None))
       \<and> (\<exists>st' w'. WriteDeflateLevel d st (BytesBuffer b) p level
                      = Some (st', w', int (length p), None))
       \<and> (\<exists>st' w'. WriteDeflateLevel d st (ByteBuffer b) p level
                      = Some (st', w', int (length p), None))"
proof -
  have r: "length (realDeflateWriterPoolMap st) = 12"
    and t: "length (stacklessDeflateWriterPoolMap st) = 12"
    using assms by (simp_all add: pools_ok_def)
  have "\<exists>st' w'. WriteDeflateLevel d st (OtherWriter f s) p level =
            Some (st', w', int (length p),
                  (let out = write_step_bytes d (stackless_writer_level st level) p
                   in if out = [] then None else snd (snd (f s out))))"
    by (simp add: WriteDeflateLevel_default_eq [OF r t] snd_forward_OtherWriter Let_def)
  then show ?thesis
    using WriteDeflateLevel_ByteSliceWriter [OF r, of d b p level]
      WriteDeflateLevel_BytesBuffer [OF r, of d b p level]
      WriteDeflateLevel_ByteBuffer [OF r, of d b p level]
    by blast
qed

lemma stackless_nth_init_pools:
  "stacklessDeflateWriterPoolMap init_pools ! nat (normalizeCompressLevel level) = []"
  using normalizeCompressLevel_nat_less_12 [of level]
  by (simp add: init_pools_def newCompressWriterPoolMap_def)

lemma stackless_writer_level_init_pools:
  "stackless_writer_level init_pools level = clamp_level level"
  by (simp add: stackless_writer_level_def pool_at_ok length_stackless_init_pools
      stackless_nth_init_pools real_writer_level_init_pools)

text \<open>
  Claim C7, as the spec states it, has \<open>WriteDeflateLevel\<close> propagate any underlying
  write error. The bytes the codec emits when the stream is closed are written during
  \<open>releaseStacklessDeflateWriter\<close>, which drops the error of \<open>Close\<close>. A destination
  that accepts the first \<open>Write\<close> (the zlib header) and refuses the second (the blocks
  and the checksum) is left with the header alone, and the call returns \<open>(5, nil)\<close>.
\<close>

theorem close_error_dropped_counterexample:
  "map_option snd
     (WriteDeflateLevel (ref_deps 64) init_pools (OtherWriter one_shot_Write ([], 0))
        [104, 101, 108, 108, 111] 5)
     = Some (OtherWriter one_shot_Write ([120, 94], 1), 5, None)
   \<and> one_shot_Write ([120, 94], 0)
        [0, 5, 0, 250, 255, 104, 101, 108, 108, 111, 1, 0, 0, 255, 255, 6, 44, 2, 21]
     = (([120, 94], 1), 0, Some (ErrWriter 1))"
proof -
  have lv: "stackless_writer_level (init_pools :: ref_comp pools) 5 = 5"
    by (simp add: stackless_writer_level_init_pools clamp_level_def
        zlib_HuffmanOnly_def zlib_BestCompression_def)
  have h: "zlib_header 5 = [120, 94]"
    by (simp add: zlib_header_def)
  have c: "close_step_bytes (ref_deps 64) 5 [104, 101, 108, 108, 111]
             = [0, 5, 0, 250, 255, 104, 101, 108, 108, 111, 1, 0, 0, 255, 255, 6, 44, 2, 21]"
    by (simp add: close_step_bytes_ref stored_blocks_small stored_block_def adler32_hello)
  show ?thesis
    by (simp add: WriteDeflateLevel_default_eq [OF length_real_init_pools length_stackless_init_pools]
        lv write_step_bytes_ref h c forward_def one_shot_Write_def)
qed


theorem WriteDeflateLevel_count_and_error_witness:
  "pools_ok (init_pools :: ref_comp pools)
   \<and> (\<exists>st' w'. WriteDeflateLevel (ref_deps 64) init_pools (OtherWriter one_shot_Write ([1], 0))
                     [104, 101, 108, 108, 111] 5
                   = Some (st', w', 5, Some (ErrWriter 1)))"
proof -
  have out: "write_step_bytes (ref_deps 64) (stackless_writer_level (init_pools :: ref_comp pools) 5)
               [104, 101, 108, 108, 111] = [120, 94]"
    by (simp add: write_step_bytes_ref zlib_header_def stackless_writer_level_init_pools
        clamp_level_def zlib_HuffmanOnly_def zlib_BestCompression_def)
  from WriteDeflateLevel_count_and_error
    [OF pools_ok_init_pools, where d = "ref_deps 64" and f = one_shot_Write and s = "([1], 0)"
       and p = "[104, 101, 108, 108, 111]" and level = 5 and b = "[]"]
  have "\<exists>st' w'. WriteDeflateLevel (ref_deps 64) init_pools (OtherWriter one_shot_Write ([1], 0))
                     [104, 101, 108, 108, 111] 5
                   = Some (st', w', 5, Some (ErrWriter 1))"
    unfolding out by (simp add: one_shot_Write_def del: WriteDeflateLevel.simps) blast
  with pools_ok_init_pools show ?thesis by blast
qed

lemma real_nth_init_pools:
  "realDeflateWriterPoolMap init_pools ! nat (normalizeCompressLevel level) = []"
  using normalizeCompressLevel_nat_less_12 [of level]
  by (simp add: init_pools_def newCompressWriterPoolMap_def)

text \<open>
  Claim C6 says the bytes delivered do not depend on the dispatch path. The inline path
  takes its codec writer from \<open>realDeflateWriterPoolMap\<close>, the default path from
  \<open>stacklessDeflateWriterPoolMap\<close> first, and an out-of-range level is normalised to the
  index of level 6 but a new writer for it is made at level 9. After one
  default-path call at level 6 from the initial pools, \<open>"hello"\<close> at level 100 is
  compressed at level 9 on the inline path and at level 6 on the default path: the
  streams differ in the header's level bits.
\<close>

theorem dispatch_paths_differ:
  "\<exists>s1 w1.
     WriteDeflateLevel (ref_deps 64) init_pools (defaultByteWriter []) [] 6 = Some (s1, w1, 0, None)
     \<and> map_option (fst \<circ> snd)
           (AppendDeflateBytesLevel (ref_deps 64) s1 [] [104, 101, 108, 108, 111] 100)
         = Some [120, 218, 0, 5, 0, 250, 255, 104, 101, 108, 108, 111, 1, 0, 0, 255, 255, 6, 44, 2, 21]
     \<and> map_option (fst \<circ> snd)
           (WriteDeflateLevel (ref_deps 64) s1 (defaultByteWriter []) [104, 101, 108, 108, 111] 100)
         = Some (defaultByteWriter
                   [120, 156, 0, 5, 0, 250, 255, 104, 101, 108, 108, 111, 1, 0, 0, 255, 255, 6, 44, 2, 21])"
proof -
  let ?d = "ref_deps 64"
  let ?s1 = "after_default ?d init_pools [] 6"
  have n6: "nat (normalizeCompressLevel 6) = 8" and n100: "nat (normalizeCompressLevel 100) = 8"
    by (simp_all add: normalizeCompressLevel_def CompressDefaultCompression_def)
  have first: "WriteDeflateLevel ?d init_pools (defaultByteWriter []) [] 6
                 = Some (?s1, defaultByteWriter (deflate_stream ?d 6 []), 0, None)"
    using WriteDeflateLevel_defaultByteWriter
      [OF length_real_init_pools length_stackless_init_pools, of ?d "[]" "[]" 6]
    by (simp add: stackless_writer_level_init_pools clamp_level_def zlib_HuffmanOnly_def
        zlib_BestCompression_def)
  have lr: "length (realDeflateWriterPoolMap ?s1) = 12"
    and ls: "length (stacklessDeflateWriterPoolMap ?s1) = 12"
    by (simp_all add: after_default_def Let_def length_real_init_pools length_stackless_init_pools)
  have real8: "realDeflateWriterPoolMap ?s1 ! 8 = []"
    using real_nth_init_pools [of 6, where ?'a = ref_comp]
      stackless_nth_init_pools [of 6, where ?'a = ref_comp]
      length_real_init_pools [where ?'a = ref_comp]
    by (simp add: after_default_def Let_def n6)
  have st8: "stacklessDeflateWriterPoolMap ?s1 ! 8
               = [\<lparr>sw_zw = closed_writer ?d 6 [], sw_xw = []\<rparr>]"
    using stackless_nth_init_pools [of 6, where ?'a = ref_comp]
      length_stackless_init_pools [where ?'a = ref_comp]
    by (simp add: after_default_def Let_def n6 stackless_writer_level_init_pools clamp_level_def
        zlib_HuffmanOnly_def zlib_BestCompression_def)
  have rl: "real_writer_level ?s1 100 = 9"
    using real8 lr n100
    by (simp add: real_writer_level_def pool_at_ok clamp_level_def zlib_HuffmanOnly_def
        zlib_BestCompression_def)
  have sl: "stackless_writer_level ?s1 100 = 6"
    using st8 ls n100
    by (simp add: stackless_writer_level_def pool_at_ok closed_writer_def)
  have inline: "AppendDeflateBytesLevel ?d ?s1 [] [104, 101, 108, 108, 111] 100
     = Some (after_inline ?d ?s1 [104, 101, 108, 108, 111] 100,
             [120, 218, 0, 5, 0, 250, 255, 104, 101, 108, 108, 111, 1, 0, 0, 255, 255, 6, 44, 2, 21],
             None)"
    by (simp add: AppendDeflateBytesLevel_eq [OF lr] rl deflate_stream_ref_hello zlib_header_def)
  have dflt: "WriteDeflateLevel ?d ?s1 (defaultByteWriter []) [104, 101, 108, 108, 111] 100
     = Some (after_default ?d ?s1 [104, 101, 108, 108, 111] 100,
             defaultByteWriter
               [120, 156, 0, 5, 0, 250, 255, 104, 101, 108, 108, 111, 1, 0, 0, 255, 255, 6, 44, 2, 21],
             5, None)"
    by (simp add: WriteDeflateLevel_defaultByteWriter [OF lr ls] sl deflate_stream_ref_hello
        zlib_header_def)
  from first inline dflt show ?thesis
    by (intro exI [of _ ?s1] exI [of _ "defaultByteWriter (deflate_stream ?d 6 [])"]) simp
qed

section \<open>Appending to the destination\<close>









section \<open>Pools whose writers have the level of their index\<close>

lemma normalizeCompressLevel_level_ok:
  "level_ok level \<Longrightarrow> normalizeCompressLevel level = level + 2"
  by (simp add: level_ok_def zlib_HuffmanOnly_def zlib_BestCompression_def normalizeCompressLevel_def)

lemma int_nat_normalizeCompressLevel:
  "int (nat (normalizeCompressLevel level)) = normalizeCompressLevel level"
  using normalizeCompressLevel_bounds [of level] by simp

lemma clamp_level_level_ok: "level_ok level \<Longrightarrow> clamp_level level = level"
  by (simp add: level_ok_def clamp_level_def)

lemma real_writer_level_match:
  assumes ok: "pools_ok st" and m: "pool_levels_match st" and l: "level_ok level"
  shows "real_writer_level st level = level"
proof (cases "realDeflateWriterPoolMap st ! nat (normalizeCompressLevel level)")
  case Nil
  with ok l show ?thesis
    by (simp add: real_writer_level_def pool_at_ok pools_ok_def clamp_level_level_ok)
next
  case (Cons v vs)
  have i: "nat (normalizeCompressLevel level) < length (realDeflateWriterPoolMap st)"
    using ok normalizeCompressLevel_nat_less_12 [of level] by (simp add: pools_ok_def)
  have v: "v \<in> set (realDeflateWriterPoolMap st ! nat (normalizeCompressLevel level))"
    using Cons by simp
  from m i v have "normalizeCompressLevel (zw_level v) = int (nat (normalizeCompressLevel level))"
    unfolding pool_levels_match_def by blast
  moreover have "level_ok (zw_level v)"
    by (rule pools_ok_nth_real [OF ok v])
  ultimately have "zw_level v = level"
    using l normalizeCompressLevel_bounds [of level]
    by (simp add: normalizeCompressLevel_level_ok)
  with Cons ok show ?thesis
    by (simp add: real_writer_level_def pool_at_ok pools_ok_def)
qed

lemma pools_ok_nth_stackless:
  assumes "pools_ok st"
    and "sw \<in> set (stacklessDeflateWriterPoolMap st ! nat (normalizeCompressLevel level))"
  shows "level_ok (zw_level (sw_zw sw))"
proof -
  have "nat (normalizeCompressLevel level) < length (stacklessDeflateWriterPoolMap st)"
    using assms(1) normalizeCompressLevel_nat_less_12 [of level] by (simp add: pools_ok_def)
  then have "stacklessDeflateWriterPoolMap st ! nat (normalizeCompressLevel level)
               \<in> set (stacklessDeflateWriterPoolMap st)"
    by (rule nth_mem)
  with assms show ?thesis by (auto simp add: pools_ok_def)
qed

lemma stackless_writer_level_match:
  assumes ok: "pools_ok st" and m: "pool_levels_match st" and l: "level_ok level"
  shows "stackless_writer_level st level = level"
proof (cases "stacklessDeflateWriterPoolMap st ! nat (normalizeCompressLevel level)")
  case Nil
  with ok show ?thesis
    by (simp add: stackless_writer_level_def pool_at_ok pools_ok_def
        real_writer_level_match [OF ok m l])
next
  case (Cons v vs)
  have i: "nat (normalizeCompressLevel level) < length (stacklessDeflateWriterPoolMap st)"
    using ok normalizeCompressLevel_nat_less_12 [of level] by (simp add: pools_ok_def)
  have v: "v \<in> set (stacklessDeflateWriterPoolMap st ! nat (normalizeCompressLevel level))"
    using Cons by simp
  from m i v
  have "normalizeCompressLevel (zw_level (sw_zw v)) = int (nat (normalizeCompressLevel level))"
    unfolding pool_levels_match_def by blast
  moreover have "level_ok (zw_level (sw_zw v))"
    by (rule pools_ok_nth_stackless [OF ok v])
  ultimately have "zw_level (sw_zw v) = level"
    using l normalizeCompressLevel_bounds [of level]
    by (simp add: normalizeCompressLevel_level_ok)
  with Cons ok show ?thesis
    by (simp add: stackless_writer_level_def pool_at_ok pools_ok_def)
qed

lemma set_tl_subset: "x \<in> set (tl xs) \<Longrightarrow> x \<in> set xs"
  by (cases xs) simp_all

lemma pool_levels_match_after_inline:
  assumes ok: "pools_ok st" and m: "pool_levels_match st" and l: "level_ok level"
  shows "pool_levels_match (after_inline d st p level)"
proof -
  let ?i = "nat (normalizeCompressLevel level)"
  have lvl: "real_writer_level st level = level"
    by (rule real_writer_level_match [OF ok m l])
  have real: "\<forall>j < length (realDeflateWriterPoolMap st).
                \<forall>zw \<in> set (realDeflateWriterPoolMap st ! j). normalizeCompressLevel (zw_level zw) = int j"
    and stk: "\<forall>j < length (stacklessDeflateWriterPoolMap st).
                \<forall>sw \<in> set (stacklessDeflateWriterPoolMap st ! j).
                  normalizeCompressLevel (zw_level (sw_zw sw)) = int j"
    using m by (simp_all add: pool_levels_match_def)
  have "normalizeCompressLevel (zw_level zw) = int j"
    if j: "j < length (realDeflateWriterPoolMap st)"
      and zw: "zw \<in> set ((realDeflateWriterPoolMap st)
                  [?i := closed_writer d level p # tl (realDeflateWriterPoolMap st ! ?i)] ! j)"
    for j zw
  proof (cases "j = ?i")
    case True
    with j zw have "zw = closed_writer d level p \<or> zw \<in> set (tl (realDeflateWriterPoolMap st ! ?i))"
      by simp
    then show ?thesis
    proof
      assume "zw = closed_writer d level p"
      then show ?thesis
        using True normalizeCompressLevel_bounds [of level] by (simp add: closed_writer_def)
    next
      assume "zw \<in> set (tl (realDeflateWriterPoolMap st ! ?i))"
      then have "zw \<in> set (realDeflateWriterPoolMap st ! ?i)" by (rule set_tl_subset)
      with real j True show ?thesis by blast
    qed
  next
    case False
    with zw have "zw \<in> set (realDeflateWriterPoolMap st ! j)" by simp
    with real j show ?thesis by blast
  qed
  with stk show ?thesis
    by (simp add: pool_levels_match_def after_inline_def lvl)
qed

lemma pool_levels_match_init_pools: "pool_levels_match init_pools"
  by (simp add: pool_levels_match_def init_pools_def newCompressWriterPoolMap_def)


lemma level_ok_stackless_writer_level:
  assumes "pools_ok st"
  shows "level_ok (stackless_writer_level st level)"
proof (cases "stacklessDeflateWriterPoolMap st ! nat (normalizeCompressLevel level)")
  case Nil
  with assms show ?thesis
    by (simp add: stackless_writer_level_def pool_at_ok pools_ok_def level_ok_real_writer_level)
next
  case (Cons v vs)
  then have "level_ok (zw_level (sw_zw v))"
    using pools_ok_nth_stackless [OF assms, of v level] by simp
  with Cons assms show ?thesis
    by (simp add: stackless_writer_level_def pool_at_ok pools_ok_def)
qed

lemma pools_ok_stackless_update:
  assumes "pools_ok st" and "\<forall>sw \<in> set q. level_ok (zw_level (sw_zw sw))"
  shows "pools_ok (st\<lparr>stacklessDeflateWriterPoolMap := (stacklessDeflateWriterPoolMap st)[i := q]\<rparr>)"
proof -
  have "set ((stacklessDeflateWriterPoolMap st)[i := q])
          \<subseteq> insert q (set (stacklessDeflateWriterPoolMap st))"
    by (rule set_update_subset_insert)
  with assms show ?thesis
    by (auto simp add: pools_ok_def)
qed

lemma after_default_split:
  "after_default d st p level =
     (let i = nat (normalizeCompressLevel level);
          sp = stacklessDeflateWriterPoolMap st ! i;
          rp = realDeflateWriterPoolMap st ! i;
          st1 = st\<lparr>realDeflateWriterPoolMap :=
                     (realDeflateWriterPoolMap st)[i := (if sp = [] then tl rp else rp)]\<rparr>
      in st1\<lparr>stacklessDeflateWriterPoolMap :=
                (stacklessDeflateWriterPoolMap st1)
                  [i := \<lparr>sw_zw = closed_writer d (stackless_writer_level st level) p, sw_xw = []\<rparr>
                          # tl sp]\<rparr>)"
  by (simp add: after_default_def Let_def)

lemma pools_ok_after_default:
  assumes ok: "pools_ok st"
  shows "pools_ok (after_default d st p level)"
proof -
  let ?i = "nat (normalizeCompressLevel level)"
  let ?sp = "stacklessDeflateWriterPoolMap st ! ?i"
  let ?rp = "realDeflateWriterPoolMap st ! ?i"
  let ?st1 = "st\<lparr>realDeflateWriterPoolMap :=
                    (realDeflateWriterPoolMap st)[?i := (if ?sp = [] then tl ?rp else ?rp)]\<rparr>"
  have "\<forall>zw \<in> set (if ?sp = [] then tl ?rp else ?rp). level_ok (zw_level zw)"
    using pools_ok_nth_real [OF ok, of _ level] by (auto dest: set_tl_subset)
  then have ok1: "pools_ok ?st1"
    by (rule pools_ok_real_update [OF ok])
  have "\<forall>sw \<in> set (\<lparr>sw_zw = closed_writer d (stackless_writer_level st level) p, sw_xw = []\<rparr> # tl ?sp).
          level_ok (zw_level (sw_zw sw))"
    using pools_ok_nth_stackless [OF ok, of _ level] level_ok_stackless_writer_level [OF ok, of level]
    by (auto simp add: closed_writer_def dest: set_tl_subset)
  then have "pools_ok (?st1\<lparr>stacklessDeflateWriterPoolMap :=
                (stacklessDeflateWriterPoolMap ?st1)
                  [?i := \<lparr>sw_zw = closed_writer d (stackless_writer_level st level) p, sw_xw = []\<rparr>
                          # tl ?sp]\<rparr>)"
    by (intro pools_ok_stackless_update [OF ok1]) simp
  then show ?thesis
    by (simp add: after_default_split Let_def)
qed

lemma pool_levels_match_after_default:
  assumes ok: "pools_ok st" and m: "pool_levels_match st" and l: "level_ok level"
  shows "pool_levels_match (after_default d st p level)"
proof -
  let ?i = "nat (normalizeCompressLevel level)"
  let ?sp = "stacklessDeflateWriterPoolMap st ! ?i"
  let ?rp = "realDeflateWriterPoolMap st ! ?i"
  have lvl: "stackless_writer_level st level = level"
    by (rule stackless_writer_level_match [OF ok m l])
  have real: "\<forall>j < length (realDeflateWriterPoolMap st).
                \<forall>zw \<in> set (realDeflateWriterPoolMap st ! j). normalizeCompressLevel (zw_level zw) = int j"
    and stk: "\<forall>j < length (stacklessDeflateWriterPoolMap st).
                \<forall>sw \<in> set (stacklessDeflateWriterPoolMap st ! j).
                  normalizeCompressLevel (zw_level (sw_zw sw)) = int j"
    using m by (simp_all add: pool_levels_match_def)
  have r: "normalizeCompressLevel (zw_level zw) = int j"
    if j: "j < length (realDeflateWriterPoolMap st)"
      and zw: "zw \<in> set ((realDeflateWriterPoolMap st)[?i := (if ?sp = [] then tl ?rp else ?rp)] ! j)"
    for j zw
  proof (cases "j = ?i")
    case True
    with j zw have "zw \<in> set ?rp"
      by (auto dest: set_tl_subset split: if_splits)
    with real j True show ?thesis by blast
  next
    case False
    with zw have "zw \<in> set (realDeflateWriterPoolMap st ! j)" by simp
    with real j show ?thesis by blast
  qed
  have s: "normalizeCompressLevel (zw_level (sw_zw sw)) = int j"
    if j: "j < length (stacklessDeflateWriterPoolMap st)"
      and sw: "sw \<in> set ((stacklessDeflateWriterPoolMap st)
                  [?i := \<lparr>sw_zw = closed_writer d level p, sw_xw = []\<rparr> # tl ?sp] ! j)"
    for j sw
  proof (cases "j = ?i")
    case True
    with j sw have "sw = \<lparr>sw_zw = closed_writer d level p, sw_xw = []\<rparr> \<or> sw \<in> set (tl ?sp)"
      by simp
    then show ?thesis
    proof
      assume "sw = \<lparr>sw_zw = closed_writer d level p, sw_xw = []\<rparr>"
      then show ?thesis
        using True normalizeCompressLevel_bounds [of level] by (simp add: closed_writer_def)
    next
      assume "sw \<in> set (tl ?sp)"
      then have "sw \<in> set ?sp" by (rule set_tl_subset)
      with stk j True show ?thesis by blast
    qed
  next
    case False
    with sw have "sw \<in> set (stacklessDeflateWriterPoolMap st ! j)" by simp
    with stk j show ?thesis by blast
  qed
  from r s show ?thesis
    by (simp add: pool_levels_match_def after_default_def Let_def lvl)
qed


text \<open>
  With levels in \<open>-2..9\<close> only, the pools keep the invariant of the spec: from pools
  whose idle writers have the level of their index, a call on either path uses a writer
  of the requested level and leaves such pools behind, and both paths deliver the same
  bytes.
\<close>

lemma in_range_inline:
  assumes "pools_ok st" and "pool_levels_match st" and "level_ok level"
  shows "AppendDeflateBytesLevel d st dst p level
           = Some (after_inline d st p level, dst @ deflate_stream d level p, None)
         \<and> pools_ok (after_inline d st p level)
         \<and> pool_levels_match (after_inline d st p level)"
proof -
  have "length (realDeflateWriterPoolMap st) = 12"
    using assms(1) by (simp add: pools_ok_def)
  then show ?thesis
    using real_writer_level_match [OF assms] pools_ok_after_inline [OF assms(1)]
      pool_levels_match_after_inline [OF assms]
    by (simp add: AppendDeflateBytesLevel_eq)
qed

lemma in_range_default:
  assumes "pools_ok st" and "pool_levels_match st" and "level_ok level"
  shows "WriteDeflateLevel d st (defaultByteWriter dst) p level
           = Some (after_default d st p level, defaultByteWriter (dst @ deflate_stream d level p),
                   int (length p), None)
         \<and> pools_ok (after_default d st p level)
         \<and> pool_levels_match (after_default d st p level)"
proof -
  have "length (realDeflateWriterPoolMap st) = 12"
    and "length (stacklessDeflateWriterPoolMap st) = 12"
    using assms(1) by (simp_all add: pools_ok_def)
  then show ?thesis
    using stackless_writer_level_match [OF assms] pools_ok_after_default [OF assms(1)]
      pool_levels_match_after_default [OF assms]
    by (simp add: WriteDeflateLevel_defaultByteWriter)
qed

lemma dispatch_paths_agree_in_range:
  assumes "pools_ok st" and "pool_levels_match st" and "level_ok level"
  shows "\<exists>st1 st2 out.
           AppendDeflateBytesLevel d st dst p level = Some (st1, dst @ out, None)
           \<and> WriteDeflateLevel d st (defaultByteWriter dst) p level
               = Some (st2, defaultByteWriter (dst @ out), int (length p), None)"
  using in_range_inline [OF assms, of d dst p] in_range_default [OF assms, of d dst p]
  by blast

lemma any_level_keeps_pools_ok:
  assumes "pools_ok st"
  shows "(\<exists>st1 out. AppendDeflateBytesLevel d st dst p level = Some (st1, out, None) \<and> pools_ok st1)
       \<and> (\<exists>st2 w n err. WriteDeflateLevel d st (OtherWriter f s) p level = Some (st2, w, n, err)
                          \<and> pools_ok st2)"
proof -
  have r: "length (realDeflateWriterPoolMap st) = 12"
    and t: "length (stacklessDeflateWriterPoolMap st) = 12"
    using assms by (simp_all add: pools_ok_def)
  show ?thesis
    using pools_ok_after_inline [OF assms, of d p level] pools_ok_after_default [OF assms, of d p level]
    by (simp add: AppendDeflateBytesLevel_eq [OF r] WriteDeflateLevel_default_eq [OF r t])
qed

text \<open>
  Well-formedness is an invariant of the engine: the initial pools are well-formed
  (\<open>pools_ok_init_pools\<close>), and from well-formed pools \<open>WriteDeflateLevel\<close>, for any
  destination and any integer level, returns without a panic and leaves well-formed
  pools, as does \<open>WriteInflate\<close>.
\<close>

lemma pools_ok_flateReaderPool_update:
  "pools_ok (st\<lparr>flateReaderPool := q\<rparr>) = pools_ok st"
  by (simp add: pools_ok_def)

lemma pools_ok_WriteInflate:
  assumes "pools_ok st"
  shows "pools_ok (fst (WriteInflate d st w p))"
  using assms
  by (cases "flateReaderPool st")
     (auto simp add: WriteInflate_def acquireFlateReader_def releaseFlateReader_def
        pools_ok_flateReaderPool_update Let_def split: sum.splits prod.splits)

lemma pools_ok_WriteDeflateLevel:
  assumes ok: "pools_ok st"
  shows "\<exists>st' w' err. WriteDeflateLevel d st w p level = Some (st', w', int (length p), err)
                        \<and> pools_ok st'"
proof -
  have r: "length (realDeflateWriterPoolMap st) = 12"
    and t: "length (stacklessDeflateWriterPoolMap st) = 12"
    using ok by (simp_all add: pools_ok_def)
  show ?thesis
  proof (cases w)
    case (ByteSliceWriter b)
    then show ?thesis
      using WriteDeflateLevel_ByteSliceWriter [OF r, of d b p level] pools_ok_after_inline [OF ok, of d p level]
      by blast
  next
    case (BytesBuffer b)
    then show ?thesis
      using WriteDeflateLevel_BytesBuffer [OF r, of d b p level] pools_ok_after_inline [OF ok, of d p level]
      by blast
  next
    case (ByteBuffer b)
    then show ?thesis
      using WriteDeflateLevel_ByteBuffer [OF r, of d b p level] pools_ok_after_inline [OF ok, of d p level]
      by blast
  next
    case (OtherWriter f s)
    then show ?thesis
      using WriteDeflateLevel_default_eq [OF r t, of d "OtherWriter f s" p level]
        pools_ok_after_default [OF ok, of d p level]
      by simp
  qed
qed

end
